theory Spec2Isabelle
  imports Main "HOL-Library.AList"
begin

section \<open>skabelon.py: a command line front end for a templating engine\<close>

text \<open>
  The program is one Python script.  Its own code is the argument type checks
  \<open>directory_path\<close> and \<open>dispatch_file\<close>, the parser set-up \<open>parse_cmd_line\<close>, the
  function \<open>main\<close> (load the dispatch script, turn the \<open>--dispatch-opt\<close> strings into
  keyword arguments, render every yielded instruction) and the handler around
  \<open>sys.exit(main())\<close>.  Everything else is a collaborator: the standard library
  (\<open>str.split\<close>, \<open>str.join\<close>, \<open>pathlib\<close>, \<open>argparse\<close>, \<open>open\<close>), the templating engine
  and the user's dispatch script.  The library functions are written out below as the
  library documents them; the engine and the dispatch script are parameters.
\<close>

subsection \<open>Exceptions\<close>

text \<open>
  What can leave \<open>main\<close> other than a return value.  The handler at the bottom of the
  script tells three classes apart: \<open>SystemExit\<close> (with its status), \<open>KeyboardInterrupt\<close>,
  and \<open>Exception\<close> (the string is the class name or the message).
\<close>

datatype exc = SystemExit int | KeyboardInterrupt | Exception string

subsection \<open>Strings: \<open>str.split\<close> and \<open>str.join\<close>\<close>

text \<open>
  \<open>s.split(sep)\<close> for a one character separator: the pieces between the separators,
  always at least one piece (\<open>''.split(':') == ['']\<close>).
\<close>

fun str_split :: "char \<Rightarrow> string \<Rightarrow> string list" where
  "str_split sep [] = [[]]"
| "str_split sep (c # cs) =
     (if c = sep then [] # str_split sep cs
      else (c # hd (str_split sep cs)) # tl (str_split sep cs))"

text \<open>\<open>sep.join(parts)\<close>.\<close>

fun str_join :: "string \<Rightarrow> string list \<Rightarrow> string" where
  "str_join sep [] = []"
| "str_join sep [p] = p"
| "str_join sep (p # q # ps) = p @ sep @ str_join sep (q # ps)"

subsection \<open>The file system and \<open>pathlib\<close>\<close>

text \<open>
  A path names a regular file with its text, a directory, or nothing.  Paths are the
  strings the program is given; two spellings of one file are two paths here.
\<close>

datatype node = File string | Dir

type_synonym filesystem = "string \<Rightarrow> node option"

definition path_exists :: "filesystem \<Rightarrow> string \<Rightarrow> bool" where
  "path_exists fs p = (fs p \<noteq> None)"

definition is_dir :: "filesystem \<Rightarrow> string \<Rightarrow> bool" where
  "is_dir fs p = (fs p = Some Dir)"

text \<open>
  \<open>Path(s).name\<close> on POSIX: the last component, where empty components and \<open>.\<close>
  components are dropped when the path is parsed; the empty string when none is left.
\<close>

definition path_parts :: "string \<Rightarrow> string list" where
  "path_parts s = filter (\<lambda>p. p \<noteq> [] \<and> p \<noteq> ''.'') (str_split CHR ''/'' s)"

definition path_name :: "string \<Rightarrow> string" where
  "path_name s = (case path_parts s of [] \<Rightarrow> [] | p # ps \<Rightarrow> last (p # ps))"

text \<open>
  \<open>Path(s).suffix\<close>: the text from the last dot of the name on, unless that dot is
  the first or the last character of the name.
\<close>

definition suffix :: "string \<Rightarrow> string" where
  "suffix s =
     (let name = path_name s;
          after = rev (takeWhile (\<lambda>c. c \<noteq> CHR ''.'') (rev name))
      in if CHR ''.'' \<in> set name \<and> after \<noteq> [] \<and> length after + 1 < length name
         then CHR ''.'' # after else [])"

text \<open>
  \<open>Path(s).suffixes\<close>, as \<open>pathlib\<close> computes it:
  \<^verbatim>\<open>
    name = self.name
    if name.endswith('.'): return []
    name = name.lstrip('.')
    return ['.' + suffix for suffix in name.split('.')[1:]]
  \<close>
\<close>

definition suffixes :: "string \<Rightarrow> string list" where
  "suffixes s =
     (let name = path_name s
      in if name \<noteq> [] \<and> last name = CHR ''.'' then []
         else map (\<lambda>p. CHR ''.'' # p)
                (tl (str_split CHR ''.'' (dropWhile (\<lambda>c. c = CHR ''.'') name))))"

subsection \<open>The argument type checks\<close>

text \<open>
  \<open>directory_path\<close> and \<open>dispatch_file\<close> return the path or raise
  \<open>argparse.ArgumentTypeError(error_message)\<close> (\<open>Inl\<close>, with the message).
\<close>

definition directory_path :: "filesystem \<Rightarrow> string \<Rightarrow> string \<Rightarrow> string + string" where
  "directory_path fs error_message input_string =
     (if path_exists fs input_string \<and> is_dir fs input_string then Inr input_string
      else Inl error_message)"

definition dispatch_file :: "filesystem \<Rightarrow> string \<Rightarrow> string \<Rightarrow> string + string" where
  "dispatch_file fs error_message input_string =
     (if path_exists fs input_string \<and> ''.py'' \<in> set (suffixes input_string)
      then Inr input_string
      else Inl error_message)"

subsection \<open>Process state\<close>

text \<open>
  What the process does that can be seen from outside, in order.
\<close>

datatype event =
    PrintVersion
  | PrintHelp
  | UsageError string
  | DebugPrint
  | ExecModule string
  | CallDispatch "(string \<times> string) list"
  | OpenForWriting string
  | WriteText string string
  | Traceback string
  | InterruptedMessage

text \<open>
  The state threaded through the program: the file system, the events so far, and the
  two module globals \<open>DEBUG\<close> and \<open>VERBOSE\<close>.
\<close>

record state =
  files :: filesystem
  events :: "event list"
  DEBUG :: bool
  VERBOSE :: bool

definition initial_state :: "filesystem \<Rightarrow> state" where
  "initial_state fs = \<lparr>files = fs, events = [], DEBUG = False, VERBOSE = False\<rparr>"

definition emit :: "event \<Rightarrow> state \<Rightarrow> state" where
  "emit e st = st\<lparr>events := events st @ [e]\<rparr>"

subsection \<open>\<open>parse_cmd_line\<close>\<close>

text \<open>
  The command line, already cut into option occurrences by \<open>argparse\<close>: the options
  the parser declares (\<open>--version\<close>, the \<open>-h\<close>/\<open>--help\<close> that \<open>ArgumentParser\<close> adds,
  \<open>-d\<close>/\<open>--debug\<close>, \<open>-v\<close>/\<open>--verbose\<close>, \<open>--templates\<close>, \<open>--dispatch\<close>, \<open>--dispatch-opt\<close>)
  and anything else.
\<close>

datatype cli_arg =
    ArgVersion
  | ArgHelp
  | ArgDebug
  | ArgVerbose
  | ArgTemplates string
  | ArgDispatch string
  | ArgDispatchOpt string
  | ArgUnrecognized string

text \<open>The namespace \<open>parse_args\<close> returns, with the defaults the parser declares.\<close>

record namespace =
  debug :: bool
  verbose :: bool
  templates :: string
  dispatch :: string
  dispatch_opts :: "string list"

definition default_namespace :: namespace where
  "default_namespace =
     \<lparr>debug = False, verbose = False, templates = ''.'', dispatch = ''dispatch.py'',
      dispatch_opts = []\<rparr>"

text \<open>
  \<open>parser.error(message)\<close>: usage and message on the error stream, then \<open>sys.exit(2)\<close>.
\<close>

definition parser_error :: "string \<Rightarrow> state \<Rightarrow> (exc + 'a) \<times> state" where
  "parser_error message st = (Inl (SystemExit 2), emit (UsageError message) st)"

text \<open>
  \<open>argparse\<close> handles the occurrences from left to right.  The version and help actions
  print and exit with status 0; \<open>DebugAction\<close> and \<open>VerboseAction\<close> set the global and
  the namespace field; a \<open>type=\<close> function that raises \<open>ArgumentTypeError\<close> becomes
  \<open>parser.error\<close>; \<open>--dispatch-opt\<close> appends (\<open>action='append'\<close>, no \<open>type=\<close>).  The
  three booleans record that \<open>--templates\<close> was seen, that \<open>--dispatch\<close> was seen, and
  that something unrecognized was met.
\<close>

fun consume_args ::
  "cli_arg list \<Rightarrow> namespace \<Rightarrow> bool \<Rightarrow> bool \<Rightarrow> bool \<Rightarrow> state
     \<Rightarrow> (exc + namespace \<times> bool \<times> bool \<times> bool) \<times> state" where
  "consume_args [] ns seen_t seen_d extras st = (Inr (ns, seen_t, seen_d, extras), st)"
| "consume_args (ArgVersion # rest) ns seen_t seen_d extras st =
     (Inl (SystemExit 0), emit PrintVersion st)"
| "consume_args (ArgHelp # rest) ns seen_t seen_d extras st =
     (Inl (SystemExit 0), emit PrintHelp st)"
| "consume_args (ArgDebug # rest) ns seen_t seen_d extras st =
     consume_args rest (ns\<lparr>debug := True\<rparr>) seen_t seen_d extras (st\<lparr>DEBUG := True\<rparr>)"
| "consume_args (ArgVerbose # rest) ns seen_t seen_d extras st =
     consume_args rest (ns\<lparr>verbose := True\<rparr>) seen_t seen_d extras (st\<lparr>VERBOSE := True\<rparr>)"
| "consume_args (ArgTemplates s # rest) ns seen_t seen_d extras st =
     (case directory_path (files st) ''The given path is not a valid template directory.'' s of
        Inl message \<Rightarrow> parser_error message st
      | Inr path \<Rightarrow> consume_args rest (ns\<lparr>templates := path\<rparr>) True seen_d extras st)"
| "consume_args (ArgDispatch s # rest) ns seen_t seen_d extras st =
     (case dispatch_file (files st) ''The given path is not a valid dispatch script.'' s of
        Inl message \<Rightarrow> parser_error message st
      | Inr path \<Rightarrow> consume_args rest (ns\<lparr>dispatch := path\<rparr>) seen_t True extras st)"
| "consume_args (ArgDispatchOpt s # rest) ns seen_t seen_d extras st =
     consume_args rest (ns\<lparr>dispatch_opts := dispatch_opts ns @ [s]\<rparr>) seen_t seen_d extras st"
| "consume_args (ArgUnrecognized s # rest) ns seen_t seen_d extras st =
     consume_args rest ns seen_t seen_d True st"

text \<open>
  After the last occurrence \<open>argparse\<close> checks the required options (both
  \<open>--templates\<close> and \<open>--dispatch\<close> are \<open>required=True\<close>), then refuses unrecognized
  arguments.
\<close>

definition parse_cmd_line :: "cli_arg list \<Rightarrow> state \<Rightarrow> (exc + namespace) \<times> state" where
  "parse_cmd_line argv st =
     (case consume_args argv default_namespace False False False st of
        (Inl e, st') \<Rightarrow> (Inl e, st')
      | (Inr (ns, seen_t, seen_d, extras), st') \<Rightarrow>
          if \<not> seen_t \<or> \<not> seen_d then parser_error ''the following arguments are required'' st'
          else if extras then parser_error ''unrecognized arguments'' st'
          else (Inr ns, st'))"

definition dprint :: "state \<Rightarrow> state" where
  "dprint st = (if DEBUG st then emit DebugPrint st else st)"

subsection \<open>The dispatch options loop (lines 37 to 51 of \<open>main\<close>)\<close>

definition err_msg :: string where
  "err_msg = ''--dispatch-args must be passed a key:value par separated by a \":\"''"

text \<open>
  The body of the loop for one \<open>input_str\<close>: the key and value it stores, or the
  exception it raises.  The unpacking \<open>key, value = input_str.split(':')\<close> raises
  \<open>ValueError\<close> unless the list has two elements.
\<close>

definition dispatch_opt_entry :: "string \<Rightarrow> exc + string \<times> string" where
  "dispatch_opt_entry input_str =
     (if CHR '':'' \<notin> set input_str then Inl (Exception err_msg)
      else let parts = str_split CHR '':'' input_str
           in if length parts > 2 then Inr (hd parts, str_join '':'' (tl parts))
              else if length parts = 2 then
                (case str_split CHR '':'' input_str of
                   [key, val] \<Rightarrow> Inr (key, val)
                 | _ \<Rightarrow> Inl (Exception ''ValueError''))
              else Inl (Exception err_msg))"

text \<open>
  The loop.  \<open>dispatch_args\<close> is a Python dict: an association list in insertion
  order, where storing under a key that is present replaces its value in place.
\<close>

fun dispatch_args_loop ::
  "(string \<times> string) list \<Rightarrow> string list \<Rightarrow> exc + (string \<times> string) list" where
  "dispatch_args_loop dispatch_args [] = Inr dispatch_args"
| "dispatch_args_loop dispatch_args (input_str # rest) =
     (case dispatch_opt_entry input_str of
        Inl e \<Rightarrow> Inl e
      | Inr (key, val) \<Rightarrow> dispatch_args_loop (AList.update key val dispatch_args) rest)"

subsection \<open>The collaborators: dispatch script and templating engine\<close>

text \<open>
  What the generator returned by \<open>dispatch(**dispatch_args)\<close> does when it is iterated:
  it stops, raises, or yields a value and goes on.  A yielded value unpacks to
  \<open>tname, context, output_file\<close> or it does not.
\<close>

datatype 'c item = Triple string 'c string | NotATriple

datatype 'c gen = Stop | Raise exc | Yield "'c item" "'c gen"

text \<open>
  The module object after \<open>exec_module\<close>: it has an attribute \<open>dispatch\<close> or not; the
  call returns the generator or raises.
\<close>

datatype 'c pymodule =
  Module "((string \<times> string) list \<Rightarrow> exc + 'c gen) option"

text \<open>
  The environment of one run.
  \<^item> \<open>exec_module\<close>: lines 32 to 35 for a path, the loaded module or the exception
    (the script may call \<open>sys.exit\<close>, fail to parse, be interrupted).
  \<^item> \<open>get_template\<close>: \<open>env.get_template(tname)\<close> for the template directory in the
    current file system, the compiled template or the exception (not found, syntax error).
  \<^item> \<open>render\<close>: \<open>template.render(**context)\<close>.
  \<^item> \<open>can_open\<close>: whether \<open>open(output_file, 'w')\<close> is allowed for the path
    (permissions, parent directory); a directory can never be opened for writing.

  What the dispatch script itself does to the file system, while it is loaded or
  between two yields, is outside the model: the generator is the sequence of values
  it yields, and the files change only through the program's own \<open>open\<close> and \<open>write\<close>.
  A \<open>write\<close> to a file that was opened is taken to succeed.
\<close>

record ('t, 'c) world =
  exec_module :: "string \<Rightarrow> exc + 'c pymodule"
  get_template :: "filesystem \<Rightarrow> string \<Rightarrow> string \<Rightarrow> exc + 't"
  render :: "filesystem \<Rightarrow> 't \<Rightarrow> 'c \<Rightarrow> exc + string"
  can_open :: "string \<Rightarrow> bool"

subsection \<open>The render loop (lines 53 to 56 of \<open>main\<close>)\<close>

text \<open>
  The body of the loop:
  \<^verbatim>\<open>
    template = env.get_template(tname)
    with open(output_file, 'w') as fout:
        fout.write(template.render(**context))
  \<close>
  The template is fetched, the output file is opened (created or truncated), the
  argument of \<open>write\<close> is evaluated, and the text is written.
\<close>

definition render_one ::
  "('t, 'c) world \<Rightarrow> string \<Rightarrow> string \<Rightarrow> 'c \<Rightarrow> string \<Rightarrow> state \<Rightarrow> (exc + unit) \<times> state" where
  "render_one w dir tname context output_file st =
     (case get_template w (files st) dir tname of
        Inl e \<Rightarrow> (Inl e, st)
      | Inr template \<Rightarrow>
          if \<not> can_open w output_file \<or> is_dir (files st) output_file
          then (Inl (Exception ''OSError''), st)
          else
            let st1 = emit (OpenForWriting output_file)
                        (st\<lparr>files := (files st)(output_file \<mapsto> File [])\<rparr>)
            in (case render w (files st1) template context of
                  Inl e \<Rightarrow> (Inl e, st1)
                | Inr text \<Rightarrow>
                    (Inr (), emit (WriteText output_file text)
                               (st1\<lparr>files := (files st1)(output_file \<mapsto> File text)\<rparr>))))"

fun render_loop ::
  "('t, 'c) world \<Rightarrow> string \<Rightarrow> 'c gen \<Rightarrow> state \<Rightarrow> (exc + unit) \<times> state" where
  "render_loop w dir Stop st = (Inr (), st)"
| "render_loop w dir (Raise e) st = (Inl e, st)"
| "render_loop w dir (Yield NotATriple g) st = (Inl (Exception ''ValueError''), st)"
| "render_loop w dir (Yield (Triple tname context output_file) g) st =
     (case render_one w dir tname context output_file st of
        (Inl e, st') \<Rightarrow> (Inl e, st')
      | (Inr u, st') \<Rightarrow> render_loop w dir g st')"

subsection \<open>\<open>main\<close> and the handler around it\<close>

definition main :: "('t, 'c) world \<Rightarrow> cli_arg list \<Rightarrow> state \<Rightarrow> (exc + int) \<times> state" where
  "main w argv st0 =
     (case parse_cmd_line argv st0 of
        (Inl e, st1) \<Rightarrow> (Inl e, st1)
      | (Inr args, st1) \<Rightarrow>
          let st2 = emit (ExecModule (dispatch args)) (dprint st1)
          in (case exec_module w (dispatch args) of
                Inl e \<Rightarrow> (Inl e, st2)
              | Inr dispatcher \<Rightarrow>
                  (case dispatch_args_loop [] (dispatch_opts args) of
                     Inl e \<Rightarrow> (Inl e, st2)
                   | Inr dispatch_args \<Rightarrow>
                       (case dispatcher of
                          Module None \<Rightarrow> (Inl (Exception ''AttributeError''), st2)
                        | Module (Some f) \<Rightarrow>
                            let st3 = emit (CallDispatch dispatch_args) st2
                            in (case f dispatch_args of
                                  Inl e \<Rightarrow> (Inl e, st3)
                                | Inr g \<Rightarrow>
                                    (case render_loop w (templates args) g st3 of
                                       (Inl e, st4) \<Rightarrow> (Inl e, st4)
                                     | (Inr u, st4) \<Rightarrow> (Inr 0, st4)))))))"

text \<open>
  The three \<open>except\<close> clauses, each ending in \<open>sys.exit\<close>: the exit status of the
  process and the state it leaves.
\<close>

fun handler :: "exc \<Rightarrow> state \<Rightarrow> int \<times> state" where
  "handler (SystemExit c) st = (0, st)"
| "handler KeyboardInterrupt st = (1, emit InterruptedMessage st)"
| "handler (Exception m) st = (1, emit (Traceback m) st)"

text \<open>
  \<open>sys.exit(main())\<close> inside the \<open>try\<close>: when \<open>main\<close> returns \<open>n\<close>, \<open>sys.exit(n)\<close>
  raises \<open>SystemExit(n)\<close>, which the first clause catches like any other.
\<close>

definition run :: "('t, 'c) world \<Rightarrow> cli_arg list \<Rightarrow> state \<Rightarrow> int \<times> state" where
  "run w argv st0 =
     (case main w argv st0 of
        (Inr n, st) \<Rightarrow> handler (SystemExit n) st
      | (Inl e, st) \<Rightarrow> handler e st)"

definition exit_code :: "int \<times> state \<Rightarrow> int" where
  "exit_code r = fst r"

definition final_state :: "int \<times> state \<Rightarrow> state" where
  "final_state r = snd r"

subsection \<open>Reading a run\<close>

text \<open>The events the argument parser itself can produce.\<close>

definition parser_event :: "event \<Rightarrow> bool" where
  "parser_event e =
     (case e of PrintVersion \<Rightarrow> True | PrintHelp \<Rightarrow> True | UsageError m \<Rightarrow> True | _ \<Rightarrow> False)"

text \<open>The paths written to, in order, and the paths opened for writing, in order.\<close>

fun written :: "event list \<Rightarrow> string list" where
  "written [] = []"
| "written (WriteText p t # es) = p # written es"
| "written (e # es) = written es"

fun opened :: "event list \<Rightarrow> string list" where
  "opened [] = []"
| "opened (OpenForWriting p # es) = p # opened es"
| "opened (e # es) = opened es"

text \<open>A generator that yields the given values in order and then stops.\<close>

fun gen_of :: "'c item list \<Rightarrow> 'c gen" where
  "gen_of [] = Stop"
| "gen_of (x # xs) = Yield x (gen_of xs)"

text \<open>The output paths of the instructions in a list of yielded values.\<close>

fun output_files :: "'c item list \<Rightarrow> string list" where
  "output_files [] = []"
| "output_files (Triple tname context output_file # xs) = output_file # output_files xs"
| "output_files (NotATriple # xs) = output_files xs"

text \<open>
  The events of writing the given texts to the given paths one after the other, and
  the file system those writes leave.
\<close>

fun write_events :: "(string \<times> string) list \<Rightarrow> event list" where
  "write_events [] = []"
| "write_events ((p, t) # pts) = OpenForWriting p # WriteText p t # write_events pts"

fun write_all :: "filesystem \<Rightarrow> (string \<times> string) list \<Rightarrow> filesystem" where
  "write_all fs [] = fs"
| "write_all fs ((p, t) # pts) = write_all (fs(p \<mapsto> File t)) pts"

subsection \<open>A small engine and dispatch scripts for concrete runs\<close>

text \<open>
  The templating engine is not part of the program.  To run the model on concrete
  inputs, this stand-in looks a template up as the file \<open>dir/tname\<close> and replaces each
  \<open>{{ name }}\<close> by the value bound to \<open>name\<close> in the context (nothing when unbound, as
  the engine's default does).  The general theorems below are about every engine.
\<close>

definition toy_get_template :: "filesystem \<Rightarrow> string \<Rightarrow> string \<Rightarrow> exc + string" where
  "toy_get_template fs dir tname =
     (case fs (dir @ ''/'' @ tname) of
        Some (File src) \<Rightarrow> Inr src
      | _ \<Rightarrow> Inl (Exception ''TemplateNotFound''))"

fun toy_expand :: "(string \<times> string) list \<Rightarrow> string option \<Rightarrow> string \<Rightarrow> string" where
  "toy_expand ctx None [] = []"
| "toy_expand ctx None [c] = [c]"
| "toy_expand ctx None (a # b # cs) =
     (if a = CHR ''{'' \<and> b = CHR ''{'' then toy_expand ctx (Some []) cs
      else a # toy_expand ctx None (b # cs))"
| "toy_expand ctx (Some v) [] = []"
| "toy_expand ctx (Some v) [c] = []"
| "toy_expand ctx (Some v) (a # b # cs) =
     (if a = CHR ''}'' \<and> b = CHR ''}''
      then (case map_of ctx (filter (\<lambda>c. c \<noteq> CHR '' '') v) of Some x \<Rightarrow> x | None \<Rightarrow> [])
             @ toy_expand ctx None cs
      else toy_expand ctx (Some (v @ [a])) (b # cs))"

definition toy_render :: "filesystem \<Rightarrow> string \<Rightarrow> (string \<times> string) list \<Rightarrow> exc + string" where
  "toy_render fs template context = Inr (toy_expand context None template)"

text \<open>
  A file system with a template directory, a template, a dispatch script, a plain
  file, and a file whose name has \<open>.py\<close> in the middle.
\<close>

definition demo_files :: filesystem where
  "demo_files =
     [''tpl'' \<mapsto> Dir,
      ''tpl/t.tmpl'' \<mapsto> File ''Hello {{ name }}'',
      ''d.py'' \<mapsto> File ''def dispatch(**kw): ...'',
      ''notes.txt'' \<mapsto> File ''not a directory'',
      ''out.txt'' \<mapsto> File ''old text'',
      ''x.py.bak'' \<mapsto> File ''def dispatch(**kw): ...'']"

text \<open>A world whose dispatch script loads and defines \<open>dispatch\<close> as given.\<close>

definition demo_world ::
  "((string \<times> string) list \<Rightarrow> exc + (string \<times> string) list gen)
     \<Rightarrow> (string, (string \<times> string) list) world" where
  "demo_world f =
     \<lparr>exec_module = (\<lambda>p. Inr (Module (Some f))),
      get_template = toy_get_template,
      render = toy_render,
      can_open = (\<lambda>p. True)\<rparr>"

text \<open>\<open>def dispatch(**kw): yield ("t.tmpl", {"name": "World"}, "out.txt")\<close>\<close>

definition hello_dispatch ::
  "(string \<times> string) list \<Rightarrow> exc + (string \<times> string) list gen" where
  "hello_dispatch kw = Inr (gen_of [Triple ''t.tmpl'' [(''name'', ''World'')] ''out.txt''])"

text \<open>Three instructions, the second naming a template that is not there.\<close>

definition three_dispatch ::
  "(string \<times> string) list \<Rightarrow> exc + (string \<times> string) list gen" where
  "three_dispatch kw =
     Inr (gen_of [Triple ''t.tmpl'' [(''name'', ''one'')] ''a.txt'',
                  Triple ''missing.tmpl'' [(''name'', ''two'')] ''b.txt'',
                  Triple ''t.tmpl'' [(''name'', ''three'')] ''c.txt''])"

text \<open>A world whose dispatch script calls \<open>sys.exit(3)\<close> while it is loaded.\<close>

definition exiting_world :: "(string, (string \<times> string) list) world" where
  "exiting_world = (demo_world hello_dispatch)\<lparr>exec_module := (\<lambda>p. Inl (SystemExit 3))\<rparr>"

text \<open>
  A world where rendering raises (for instance a template that reads an attribute of
  an undefined variable).
\<close>

definition failing_render_world :: "(string, (string \<times> string) list) world" where
  "failing_render_world =
     (demo_world hello_dispatch)\<lparr>render := (\<lambda>fs t c. Inl (Exception ''UndefinedError''))\<rparr>"

section \<open>Properties\<close>

subsection \<open>Splitting and joining\<close>

lemma str_split_nonempty: "str_split sep s \<noteq> []"
  by (induction s) auto

lemma str_split_no_sep: "sep \<notin> set s \<Longrightarrow> str_split sep s = [s]"
  by (induction s) auto

lemma str_split_first:
  "sep \<in> set s \<Longrightarrow>
   str_split sep s =
     takeWhile (\<lambda>c. c \<noteq> sep) s # str_split sep (tl (dropWhile (\<lambda>c. c \<noteq> sep) s))"
  by (induction s) (auto simp: str_split_no_sep)

lemma str_join_split: "str_join [sep] (str_split sep s) = s"
proof (induction s)
  case Nil
  show ?case by simp
next
  case (Cons c cs)
  obtain p ps where ps: "str_split sep cs = p # ps"
    using str_split_nonempty [of sep cs] by (cases "str_split sep cs") auto
  show ?case
  proof (cases "c = sep")
    case True
    with Cons ps show ?thesis by simp
  next
    case False
    with Cons ps show ?thesis by (cases ps) auto
  qed
qed

subsection \<open>One \<open>--dispatch-opt\<close> token\<close>

lemma dispatch_opt_entry_sep:
  assumes "CHR '':'' \<in> set tok"
  shows "dispatch_opt_entry tok =
     Inr (takeWhile (\<lambda>c. c \<noteq> CHR '':'') tok, tl (dropWhile (\<lambda>c. c \<noteq> CHR '':'') tok))"
proof -
  let ?k = "takeWhile (\<lambda>c. c \<noteq> CHR '':'') tok"
  let ?r = "tl (dropWhile (\<lambda>c. c \<noteq> CHR '':'') tok)"
  have sp: "str_split CHR '':'' tok = ?k # str_split CHR '':'' ?r"
    using assms by (rule str_split_first)
  obtain p ps where ps: "str_split CHR '':'' ?r = p # ps"
    using str_split_nonempty [of "CHR '':''" ?r] by (cases "str_split CHR '':'' ?r") auto
  have j: "str_join '':'' (p # ps) = ?r"
    using str_join_split [of "CHR '':''" ?r] ps by simp
  show ?thesis
  proof (cases ps)
    case Nil
    with j have "p = ?r" by simp
    with sp ps Nil assms show ?thesis by (simp add: dispatch_opt_entry_def)
  next
    case (Cons q qs)
    with sp ps j assms show ?thesis by (simp add: dispatch_opt_entry_def)
  qed
qed

lemma dispatch_opt_entry_no_sep:
  "CHR '':'' \<notin> set tok \<Longrightarrow> dispatch_opt_entry tok = Inl (Exception err_msg)"
  by (simp add: dispatch_opt_entry_def)

lemma first_sep_decompose:
  "sep \<in> set s \<Longrightarrow>
   s = takeWhile (\<lambda>c. c \<noteq> sep) s @ [sep] @ tl (dropWhile (\<lambda>c. c \<noteq> sep) s)"
  by (induction s) auto

text \<open>
  C2.  A token that contains a colon is stored under the text before its first colon,
  with everything after that colon as the value, later colons included: the token is
  key, colon, value, the key has no colon, and the loop stores the value under the key.
\<close>

theorem dispatch_opt_splits_at_first_colon:
  assumes "CHR '':'' \<in> set tok"
  shows "\<exists>key val kw.
           dispatch_opt_entry tok = Inr (key, val)
         \<and> tok = key @ '':'' @ val
         \<and> CHR '':'' \<notin> set key
         \<and> dispatch_args_loop acc [tok] = Inr kw
         \<and> map_of kw key = Some val"
proof -
  let ?k = "takeWhile (\<lambda>c. c \<noteq> CHR '':'') tok"
  let ?v = "tl (dropWhile (\<lambda>c. c \<noteq> CHR '':'') tok)"
  have e: "dispatch_opt_entry tok = Inr (?k, ?v)"
    using assms by (rule dispatch_opt_entry_sep)
  have d: "tok = ?k @ '':'' @ ?v"
    using first_sep_decompose [OF assms] by simp
  have n: "CHR '':'' \<notin> set ?k"
    by (auto dest: set_takeWhileD)
  have l: "dispatch_args_loop acc [tok] = Inr (AList.update ?k ?v acc)"
    using e by simp
  have m: "map_of (AList.update ?k ?v acc) ?k = Some ?v"
    by (simp add: update_conv')
  from e d n l m show ?thesis by blast
qed

theorem dispatch_opt_splits_at_first_colon_witness:
  "dispatch_opt_entry ''key:a:b'' = Inr (''key'', ''a:b'')"
proof -
  have h: "CHR '':'' \<in> set ''key:a:b''" by simp
  obtain key val kw where
    e: "dispatch_opt_entry ''key:a:b'' = Inr (key, val)"
    and d: "''key:a:b'' = key @ '':'' @ val"
    and n: "CHR '':'' \<notin> set key"
    using dispatch_opt_splits_at_first_colon [OF h] by blast
  have "key = ''key'' \<and> val = ''a:b''"
    using d n by (cases key; cases "tl key"; cases "tl (tl key)"; cases "tl (tl (tl key))") auto
  with e show ?thesis by simp
qed

subsection \<open>The argument parser, \<open>main\<close> and the handler\<close>


lemma consume_args_exc:
  "consume_args argv ns a b c st = (Inl e, st') \<Longrightarrow> \<exists>k. e = SystemExit k"
  by (induction argv ns a b c st rule: consume_args.induct)
     (auto simp: parser_error_def split: sum.splits)

lemma consume_args_files:
  "consume_args argv ns a b c st = (r, st') \<Longrightarrow> files st' = files st"
  by (induction argv ns a b c st rule: consume_args.induct)
     (auto simp: parser_error_def emit_def split: sum.splits)

lemma consume_args_events:
  "consume_args argv ns a b c st = (r, st') \<Longrightarrow>
   \<exists>new. events st' = events st @ new \<and> list_all parser_event new"
  by (induction argv ns a b c st rule: consume_args.induct)
     (auto simp: parser_error_def emit_def parser_event_def split: sum.splits)

lemma consume_args_opts:
  "consume_args argv ns a b c st = (Inr (ns', a', b', c'), st') \<Longrightarrow>
   dispatch_opts ns' = dispatch_opts ns @ [s. ArgDispatchOpt s \<leftarrow> argv]"
  by (induction argv ns a b c st rule: consume_args.induct)
     (auto simp: parser_error_def split: sum.splits)


lemma parse_cmd_line_exc:
  "parse_cmd_line argv st = (Inl e, st') \<Longrightarrow> \<exists>k. e = SystemExit k"
  by (auto simp: parse_cmd_line_def parser_error_def split: prod.splits sum.splits if_splits
           dest: consume_args_exc)

lemma parse_cmd_line_files:
  "parse_cmd_line argv st = (r, st') \<Longrightarrow> files st' = files st"
  by (auto simp: parse_cmd_line_def parser_error_def emit_def split: prod.splits sum.splits if_splits
           dest: consume_args_files)

lemma parse_cmd_line_events:
  "parse_cmd_line argv st = (r, st') \<Longrightarrow>
   \<exists>new. events st' = events st @ new \<and> list_all parser_event new"
  by (fastforce simp: parse_cmd_line_def parser_error_def emit_def parser_event_def
           split: prod.splits sum.splits if_splits
           dest: consume_args_events)

lemma parse_cmd_line_opts:
  "parse_cmd_line argv st = (Inr args, st') \<Longrightarrow>
   dispatch_opts args = [s. ArgDispatchOpt s \<leftarrow> argv]"
  by (auto simp: parse_cmd_line_def parser_error_def default_namespace_def
           split: prod.splits sum.splits if_splits
           dest: consume_args_opts)


lemma main_parse_fails:
  "parse_cmd_line argv st0 = (Inl e, st1) \<Longrightarrow> main w argv st0 = (Inl e, st1)"
  by (simp add: main_def)

lemma main_exec_fails:
  "parse_cmd_line argv st0 = (Inr args, st1) \<Longrightarrow> exec_module w (dispatch args) = Inl e \<Longrightarrow>
   main w argv st0 = (Inl e, emit (ExecModule (dispatch args)) (dprint st1))"
  by (simp add: main_def)

lemma main_opts_fail:
  "parse_cmd_line argv st0 = (Inr args, st1) \<Longrightarrow> exec_module w (dispatch args) = Inr m \<Longrightarrow>
   dispatch_args_loop [] (dispatch_opts args) = Inl e \<Longrightarrow>
   main w argv st0 = (Inl e, emit (ExecModule (dispatch args)) (dprint st1))"
  by (simp add: main_def)

lemma main_renders:
  "parse_cmd_line argv st0 = (Inr args, st1) \<Longrightarrow>
   exec_module w (dispatch args) = Inr (Module (Some f)) \<Longrightarrow>
   dispatch_args_loop [] (dispatch_opts args) = Inr kw \<Longrightarrow>
   f kw = Inr g \<Longrightarrow>
   main w argv st0 =
     (case render_loop w (templates args) g
             (emit (CallDispatch kw) (emit (ExecModule (dispatch args)) (dprint st1))) of
        (Inl e, st4) \<Rightarrow> (Inl e, st4)
      | (Inr u, st4) \<Rightarrow> (Inr 0, st4))"
  by (simp add: main_def)

lemma dispatch_args_loop_bad_token:
  "tok \<in> set toks \<Longrightarrow> CHR '':'' \<notin> set tok \<Longrightarrow>
   dispatch_args_loop acc toks = Inl (Exception err_msg)"
proof (induction toks arbitrary: acc)
  case Nil
  then show ?case by simp
next
  case (Cons t ts)
  show ?case
  proof (cases "CHR '':'' \<in> set t")
    case True
    then have "tok \<in> set ts" using Cons.prems by auto
    then show ?thesis
      using Cons.IH Cons.prems(2) dispatch_opt_entry_sep [OF True] by simp
  next
    case False
    then show ?thesis by (simp add: dispatch_opt_entry_no_sep)
  qed
qed

lemma dprint_events: "\<exists>new. events (dprint st) = events st @ new \<and> set new \<subseteq> {DebugPrint}"
  by (auto simp: dprint_def emit_def)

lemma dprint_files: "files (dprint st) = files st"
  by (simp add: dprint_def emit_def)

text \<open>
  C10.  Whatever status a \<open>SystemExit\<close> carries, the process ends with status 0: when
  \<open>main\<close> raises it, when \<open>main\<close> returns (\<open>sys.exit(main())\<close> raises it), when the
  argument parser ends the run (everything it raises is a \<open>SystemExit\<close>), and when
  the dispatch script calls \<open>sys.exit\<close> while it is loaded.  The status is 1 exactly
  when \<open>main\<close> raises \<open>KeyboardInterrupt\<close> or an \<open>Exception\<close>, and it is never anything
  but 0 or 1.
\<close>

theorem every_system_exit_becomes_zero:
  "(\<forall>c st. main w argv st0 = (Inl (SystemExit c), st) \<longrightarrow> run w argv st0 = (0, st))
   \<and> (\<forall>n st. main w argv st0 = (Inr n, st) \<longrightarrow> run w argv st0 = (0, st))
   \<and> (\<forall>e st1. parse_cmd_line argv st0 = (Inl e, st1) \<longrightarrow> run w argv st0 = (0, st1))
   \<and> (\<forall>args st1 c. parse_cmd_line argv st0 = (Inr args, st1)
          \<and> exec_module w (dispatch args) = Inl (SystemExit c)
        \<longrightarrow> exit_code (run w argv st0) = 0)
   \<and> (exit_code (run w argv st0) = 1
        \<longleftrightarrow> (fst (main w argv st0) = Inl KeyboardInterrupt
             \<or> (\<exists>m. fst (main w argv st0) = Inl (Exception m))))
   \<and> (exit_code (run w argv st0) = 0 \<or> exit_code (run w argv st0) = 1)"
proof -
  have a: "\<forall>c st. main w argv st0 = (Inl (SystemExit c), st) \<longrightarrow> run w argv st0 = (0, st)"
    by (simp add: run_def)
  have b: "\<forall>n st. main w argv st0 = (Inr n, st) \<longrightarrow> run w argv st0 = (0, st)"
    by (simp add: run_def)
  have c: "\<forall>e st1. parse_cmd_line argv st0 = (Inl e, st1) \<longrightarrow> run w argv st0 = (0, st1)"
  proof (intro allI impI)
    fix e st1 assume p: "parse_cmd_line argv st0 = (Inl e, st1)"
    then obtain k where "e = SystemExit k" using parse_cmd_line_exc by blast
    with p show "run w argv st0 = (0, st1)" by (simp add: run_def main_def)
  qed
  have d: "\<forall>args st1 c. parse_cmd_line argv st0 = (Inr args, st1)
          \<and> exec_module w (dispatch args) = Inl (SystemExit c)
        \<longrightarrow> exit_code (run w argv st0) = 0"
    by (auto simp: run_def exit_code_def main_exec_fails)
  obtain r st where m: "main w argv st0 = (r, st)" by (cases "main w argv st0")
  have e: "exit_code (run w argv st0) = 1
        \<longleftrightarrow> (fst (main w argv st0) = Inl KeyboardInterrupt
             \<or> (\<exists>m. fst (main w argv st0) = Inl (Exception m)))"
  proof (cases r)
    case (Inl x)
    with m show ?thesis by (cases x) (simp_all add: run_def exit_code_def)
  next
    case (Inr n)
    with m show ?thesis by (simp add: run_def exit_code_def)
  qed
  have f: "exit_code (run w argv st0) = 0 \<or> exit_code (run w argv st0) = 1"
  proof (cases r)
    case (Inl x)
    with m show ?thesis by (cases x) (simp_all add: run_def exit_code_def)
  next
    case (Inr n)
    with m show ?thesis by (simp add: run_def exit_code_def)
  qed
  from a b c d e f show ?thesis by blast
qed

lemma demo_parse:
  "parse_cmd_line [ArgTemplates ''tpl'', ArgDispatch ''d.py''] (initial_state demo_files)
     = (Inr \<lparr>debug = False, verbose = False, templates = ''tpl'', dispatch = ''d.py'',
             dispatch_opts = []\<rparr>, initial_state demo_files)"
  by (simp add: parse_cmd_line_def default_namespace_def initial_state_def demo_files_def
        directory_path_def dispatch_file_def path_exists_def is_dir_def suffixes_def
        path_name_def path_parts_def)


theorem every_system_exit_becomes_zero_witness:
  "exit_code (run exiting_world [ArgTemplates ''tpl'', ArgDispatch ''d.py'']
                (initial_state demo_files)) = 0
   \<and> exit_code (run exiting_world [ArgTemplates ''notes.txt'', ArgDispatch ''d.py'']
                (initial_state demo_files)) = 0"
proof -
  let ?st = "initial_state demo_files"
  have x: "exec_module exiting_world ''d.py'' = Inl (SystemExit 3)"
    by (simp add: exiting_world_def demo_world_def)
  have one: "exit_code (run exiting_world [ArgTemplates ''tpl'', ArgDispatch ''d.py''] ?st) = 0"
    using every_system_exit_becomes_zero
            [of exiting_world "[ArgTemplates ''tpl'', ArgDispatch ''d.py'']" ?st]
          demo_parse x
    by simp
  have p: "parse_cmd_line [ArgTemplates ''notes.txt'', ArgDispatch ''d.py''] ?st
             = (Inl (SystemExit 2),
                emit (UsageError ''The given path is not a valid template directory.'') ?st)"
    by (simp add: parse_cmd_line_def parser_error_def initial_state_def demo_files_def
          directory_path_def path_exists_def is_dir_def)
  have two: "exit_code (run exiting_world [ArgTemplates ''notes.txt'', ArgDispatch ''d.py''] ?st) = 0"
    using every_system_exit_becomes_zero
            [of exiting_world "[ArgTemplates ''notes.txt'', ArgDispatch ''d.py'']" ?st] p
    by (simp add: exit_code_def)
  from one two show ?thesis by simp
qed

lemma consume_args_ok_events:
  "consume_args argv ns a b c st = (Inr x, st') \<Longrightarrow> events st' = events st"
  by (induction argv ns a b c st rule: consume_args.induct)
     (auto simp: parser_error_def split: sum.splits)

lemma parse_cmd_line_ok_events:
  "parse_cmd_line argv st = (Inr args, st') \<Longrightarrow> events st' = events st"
  by (auto simp: parse_cmd_line_def parser_error_def split: prod.splits sum.splits if_splits
           dest: consume_args_ok_events)

lemma handler_files: "files (snd (handler e st)) = files st"
  by (cases e) (simp_all add: emit_def)

lemma handler_events:
  "\<exists>new. events (snd (handler e st)) = events st @ new
         \<and> set new \<subseteq> {InterruptedMessage} \<union> range Traceback"
  by (cases e) (auto simp: emit_def)

lemma parser_event_simps [simp]:
  "\<not> parser_event (ExecModule q)" "\<not> parser_event (CallDispatch kw)"
  "\<not> parser_event (OpenForWriting q)" "\<not> parser_event (WriteText q t)"
  "\<not> parser_event DebugPrint" "\<not> parser_event (Traceback m)"
  "\<not> parser_event InterruptedMessage"
  by (simp_all add: parser_event_def)

subsection \<open>\<open>--templates\<close> naming a file\<close>




subsection \<open>A \<open>--dispatch-opt\<close> token without a colon\<close>

lemma main_bad_token:
  assumes "parse_cmd_line argv st0 = (Inr args, st1)"
    and "ArgDispatchOpt tok \<in> set argv" and "CHR '':'' \<notin> set tok"
  shows "\<exists>e. main w argv st0 = (Inl e, emit (ExecModule (dispatch args)) (dprint st1))
           \<and> (exec_module w (dispatch args) = Inl e
              \<or> (\<exists>m. exec_module w (dispatch args) = Inr m) \<and> e = Exception err_msg)"
proof -
  have "tok \<in> set (dispatch_opts args)"
    using parse_cmd_line_opts [OF assms(1)] assms(2) by simp
  then have l: "dispatch_args_loop [] (dispatch_opts args) = Inl (Exception err_msg)"
    using assms(3) by (rule dispatch_args_loop_bad_token)
  show ?thesis
  proof (cases "exec_module w (dispatch args)")
    case (Inl e)
    then show ?thesis using main_exec_fails [OF assms(1) Inl] by simp
  next
    case (Inr m)
    then show ?thesis using main_opts_fail [OF assms(1) Inr l] by simp
  qed
qed

text \<open>
  C3, as stated, fails: the token \<open>novalue\<close> passes the argument parser (the option
  has no \<open>type=\<close> check), the dispatch script is loaded and executed, and only then
  \<open>main\<close> raises a plain \<open>Exception\<close>; the handler prints a traceback, not a usage
  message.  The events of the run are the load and the traceback, in that order.
\<close>

theorem bad_dispatch_opt_counterexample:
  "run (demo_world hello_dispatch)
     [ArgTemplates ''tpl'', ArgDispatch ''d.py'', ArgDispatchOpt ''novalue'']
     (initial_state demo_files)
   = (1, \<lparr>files = demo_files, events = [ExecModule ''d.py'', Traceback err_msg],
          DEBUG = False, VERBOSE = False\<rparr>)"
  by (simp add: run_def main_def parse_cmd_line_def default_namespace_def initial_state_def
        demo_files_def directory_path_def dispatch_file_def path_exists_def is_dir_def
        suffixes_def path_name_def path_parts_def demo_world_def dprint_def emit_def
        dispatch_opt_entry_def)

text \<open>
  C3, amended.  A \<open>--dispatch-opt\<close> token without a colon is not rejected by the
  argument parser.  When the command line is otherwise accepted and the dispatch
  script loads, \<open>main\<close> raises \<open>Exception(err_msg)\<close> after the load: the process exits
  with status 1, and the events of the run are the debug print (if \<open>--debug\<close> was
  given), the load of the script and the traceback.  No usage error is printed and
  \<open>dispatch\<close> is not called.
\<close>

theorem bad_dispatch_opt_raises_after_loading:
  assumes "parse_cmd_line argv st0 = (Inr args, st1)"
    and "ArgDispatchOpt tok \<in> set argv" and "CHR '':'' \<notin> set tok"
    and "exec_module w (dispatch args) = Inr m"
  shows "run w argv st0
           = (1, emit (Traceback err_msg) (emit (ExecModule (dispatch args)) (dprint st1)))
       \<and> events (final_state (run w argv st0))
           = events st0 @ (if DEBUG st1 then [DebugPrint] else [])
               @ [ExecModule (dispatch args), Traceback err_msg]"
proof -
  obtain e where m: "main w argv st0 = (Inl e, emit (ExecModule (dispatch args)) (dprint st1))"
    and e: "exec_module w (dispatch args) = Inl e
              \<or> (\<exists>m. exec_module w (dispatch args) = Inr m) \<and> e = Exception err_msg"
    using main_bad_token [OF assms(1-3)] by blast
  have "e = Exception err_msg" using e assms(4) by auto
  with m have r: "run w argv st0
           = (1, emit (Traceback err_msg) (emit (ExecModule (dispatch args)) (dprint st1)))"
    by (simp add: run_def)
  have "events st1 = events st0" using assms(1) by (rule parse_cmd_line_ok_events)
  with r show ?thesis by (simp add: final_state_def emit_def dprint_def)
qed

theorem bad_dispatch_opt_raises_after_loading_witness:
  "events (final_state (run (demo_world hello_dispatch)
     [ArgDebug, ArgTemplates ''tpl'', ArgDispatch ''d.py'', ArgDispatchOpt ''novalue'']
     (initial_state demo_files)))
   = [DebugPrint, ExecModule ''d.py'', Traceback err_msg]"
proof -
  let ?argv = "[ArgDebug, ArgTemplates ''tpl'', ArgDispatch ''d.py'', ArgDispatchOpt ''novalue'']"
  have p: "parse_cmd_line ?argv (initial_state demo_files)
     = (Inr \<lparr>debug = True, verbose = False, templates = ''tpl'', dispatch = ''d.py'',
             dispatch_opts = [''novalue'']\<rparr>, (initial_state demo_files)\<lparr>DEBUG := True\<rparr>)"
    by (simp add: parse_cmd_line_def default_namespace_def initial_state_def demo_files_def
        directory_path_def dispatch_file_def path_exists_def is_dir_def suffixes_def
        path_name_def path_parts_def)
  have a: "ArgDispatchOpt ''novalue'' \<in> set ?argv" by simp
  have b: "CHR '':'' \<notin> set ''novalue''" by simp
  have c: "exec_module (demo_world hello_dispatch)
             (dispatch \<lparr>debug = True, verbose = False, templates = ''tpl'', dispatch = ''d.py'',
                dispatch_opts = [''novalue'']\<rparr>) = Inr (Module (Some hello_dispatch))"
    by (simp add: demo_world_def)
  show ?thesis
    using bad_dispatch_opt_raises_after_loading [OF p a b c]
    by (simp add: initial_state_def final_state_def emit_def dprint_def)
qed

text \<open>
  C7.  A token without a colon always raises: the loop body raises for it, the loop
  raises whenever the token is among its inputs (whatever came before it), and in a
  run whose command line has such a token the entry point \<open>dispatch\<close> is never called.
\<close>

theorem token_without_colon_always_raises:
  assumes "CHR '':'' \<notin> set tok"
  shows "dispatch_opt_entry tok = Inl (Exception err_msg)
       \<and> (tok \<in> set toks \<longrightarrow> dispatch_args_loop acc toks = Inl (Exception err_msg))
       \<and> (ArgDispatchOpt tok \<in> set argv \<longrightarrow>
            CallDispatch kw \<notin> set (events (final_state (run w argv (initial_state fs)))))"
proof -
  have a: "dispatch_opt_entry tok = Inl (Exception err_msg)"
    using assms by (rule dispatch_opt_entry_no_sep)
  have b: "tok \<in> set toks \<longrightarrow> dispatch_args_loop acc toks = Inl (Exception err_msg)"
    using assms by (simp add: dispatch_args_loop_bad_token)
  have c: "CallDispatch kw \<notin> set (events (final_state (run w argv (initial_state fs))))"
    if t: "ArgDispatchOpt tok \<in> set argv"
  proof -
    let ?st = "initial_state fs"
    obtain r st1 where p: "parse_cmd_line argv ?st = (r, st1)"
      by (cases "parse_cmd_line argv ?st")
    obtain new where ev: "events st1 = events ?st @ new" "list_all parser_event new"
      using parse_cmd_line_events [OF p] by blast
    have ev1: "CallDispatch kw \<notin> set (events st1)"
      using ev by (auto simp: initial_state_def list_all_iff)
    show ?thesis
    proof (cases r)
      case (Inl e)
      then have "run w argv ?st = handler e st1"
        using p by (simp add: run_def main_def)
      then show ?thesis
        using ev1 handler_events [of e st1] by (auto simp: final_state_def)
    next
      case (Inr args)
      then obtain e where
        "main w argv ?st = (Inl e, emit (ExecModule (dispatch args)) (dprint st1))"
        using main_bad_token [OF _ t assms] p by blast
      then have "run w argv ?st = handler e (emit (ExecModule (dispatch args)) (dprint st1))"
        by (simp add: run_def)
      then show ?thesis
        using ev1 handler_events [of e "emit (ExecModule (dispatch args)) (dprint st1)"]
        by (auto simp: final_state_def emit_def dprint_def)
    qed
  qed
  from a b c show ?thesis by blast
qed

theorem token_without_colon_always_raises_witness:
  "dispatch_args_loop [] [''a:1'', ''novalue'', ''b:2''] = Inl (Exception err_msg)
   \<and> CallDispatch [(''a'', ''1'')] \<notin> set (events (final_state (run (demo_world hello_dispatch)
        [ArgTemplates ''tpl'', ArgDispatch ''d.py'', ArgDispatchOpt ''a:1'',
         ArgDispatchOpt ''novalue'']
        (initial_state demo_files))))"
proof -
  have a: "CHR '':'' \<notin> set ''novalue''" by simp
  show ?thesis
    using token_without_colon_always_raises [OF a,
            of "[''a:1'', ''novalue'', ''b:2'']" "[]"
               "[ArgTemplates ''tpl'', ArgDispatch ''d.py'', ArgDispatchOpt ''a:1'',
                 ArgDispatchOpt ''novalue'']"
               "[(''a'', ''1'')]" "demo_world hello_dispatch" demo_files]
    by simp
qed

subsection \<open>The render loop\<close>

lemma written_append [simp]: "written (xs @ ys) = written xs @ written ys"
  by (induction xs rule: written.induct) simp_all

lemma opened_append [simp]: "opened (xs @ ys) = opened xs @ opened ys"
  by (induction xs rule: opened.induct) simp_all

lemma render_one_ok:
  assumes "render_one w dir tname ctx out st = (Inr u, st')"
  shows "\<exists>text. st' = st\<lparr>files := (files st)(out \<mapsto> File text),
                         events := events st @ [OpenForWriting out, WriteText out text]\<rparr>"
  using assms
  by (auto simp: render_one_def emit_def Let_def split: sum.splits if_splits)

lemma render_one_events:
  "render_one w dir tname ctx out st = (r, st') \<Longrightarrow> \<exists>new. events st' = events st @ new"
  by (auto simp: render_one_def emit_def Let_def split: sum.splits if_splits)

lemma render_loop_events:
  "render_loop w dir g st = (r, st') \<Longrightarrow> \<exists>new. events st' = events st @ new"
proof (induction w dir g st arbitrary: r st' rule: render_loop.induct)
  case (4 w dir tname ctx out g st)
  obtain r1 st1 where o: "render_one w dir tname ctx out st = (r1, st1)"
    by (cases "render_one w dir tname ctx out st")
  obtain n1 where n1: "events st1 = events st @ n1"
    using render_one_events [OF o] by blast
  show ?case
  proof (cases r1)
    case (Inl e)
    with 4(2) o n1 show ?thesis by auto
  next
    case (Inr u)
    with 4(2) o have "render_loop w dir g st1 = (r, st')" by simp
    from 4(1) [OF o [symmetric] Inr this] n1 show ?thesis by auto
  qed
qed simp_all

text \<open>
  C4, as stated, fails: the output file is opened before the template is rendered.
  With an engine whose \<open>render\<close> raises, the instruction fails and \<open>out.txt\<close>, which
  held \<open>old text\<close>, is left opened and empty.
\<close>

theorem render_failure_truncates_counterexample:
  "demo_files ''out.txt'' = Some (File ''old text'')
   \<and> fst (render_one failing_render_world ''tpl'' ''t.tmpl'' [(''name'', ''World'')] ''out.txt''
            (initial_state demo_files)) = Inl (Exception ''UndefinedError'')
   \<and> files (snd (render_one failing_render_world ''tpl'' ''t.tmpl'' [(''name'', ''World'')]
                   ''out.txt'' (initial_state demo_files))) ''out.txt'' = Some (File [])
   \<and> events (snd (render_one failing_render_world ''tpl'' ''t.tmpl'' [(''name'', ''World'')]
                    ''out.txt'' (initial_state demo_files))) = [OpenForWriting ''out.txt'']"
  by (simp add: render_one_def failing_render_world_def demo_world_def toy_get_template_def
        initial_state_def demo_files_def is_dir_def emit_def)

text \<open>
  C4, amended.  For each render instruction the template is fetched first, then the
  output path is opened for writing (created or truncated), then the template is
  rendered, then the text is written.  So: when fetching the template fails (not
  found, syntax error) the state is unchanged, the output file neither created nor
  truncated; when the file cannot be opened the state is unchanged; when rendering
  fails the output file has been opened and is left empty; when rendering succeeds
  the file holds the rendered text.  Every failure ends the loop with that exception.
\<close>

theorem render_one_fetches_opens_renders_writes:
  "(get_template w (files st) dir tname = Inl e
      \<longrightarrow> render_one w dir tname ctx out st = (Inl e, st))
   \<and> (get_template w (files st) dir tname = Inr t
        \<and> (\<not> can_open w out \<or> is_dir (files st) out)
      \<longrightarrow> render_one w dir tname ctx out st = (Inl (Exception ''OSError''), st))
   \<and> (get_template w (files st) dir tname = Inr t
        \<and> can_open w out \<and> \<not> is_dir (files st) out
        \<and> render w ((files st)(out \<mapsto> File [])) t ctx = Inl e
      \<longrightarrow> render_one w dir tname ctx out st
            = (Inl e, st\<lparr>files := (files st)(out \<mapsto> File []),
                         events := events st @ [OpenForWriting out]\<rparr>))
   \<and> (get_template w (files st) dir tname = Inr t
        \<and> can_open w out \<and> \<not> is_dir (files st) out
        \<and> render w ((files st)(out \<mapsto> File [])) t ctx = Inr text
      \<longrightarrow> render_one w dir tname ctx out st
            = (Inr (), st\<lparr>files := (files st)(out \<mapsto> File text),
                          events := events st @ [OpenForWriting out, WriteText out text]\<rparr>))
   \<and> (render_one w dir tname ctx out st = (Inl e, st')
      \<longrightarrow> render_loop w dir (Yield (Triple tname ctx out) g) st = (Inl e, st'))"
proof -
  have a: "get_template w (files st) dir tname = Inl e
      \<longrightarrow> render_one w dir tname ctx out st = (Inl e, st)"
    by (simp add: render_one_def)
  have b: "get_template w (files st) dir tname = Inr t
        \<and> (\<not> can_open w out \<or> is_dir (files st) out)
      \<longrightarrow> render_one w dir tname ctx out st = (Inl (Exception ''OSError''), st)"
    by (auto simp: render_one_def)
  have c: "get_template w (files st) dir tname = Inr t
        \<and> can_open w out \<and> \<not> is_dir (files st) out
        \<and> render w ((files st)(out \<mapsto> File [])) t ctx = Inl e
      \<longrightarrow> render_one w dir tname ctx out st
            = (Inl e, st\<lparr>files := (files st)(out \<mapsto> File []),
                         events := events st @ [OpenForWriting out]\<rparr>)"
    by (simp add: render_one_def emit_def)
  have d: "get_template w (files st) dir tname = Inr t
        \<and> can_open w out \<and> \<not> is_dir (files st) out
        \<and> render w ((files st)(out \<mapsto> File [])) t ctx = Inr text
      \<longrightarrow> render_one w dir tname ctx out st
            = (Inr (), st\<lparr>files := (files st)(out \<mapsto> File text),
                          events := events st @ [OpenForWriting out, WriteText out text]\<rparr>)"
    by (simp add: render_one_def emit_def)
  have e: "render_one w dir tname ctx out st = (Inl e, st')
      \<longrightarrow> render_loop w dir (Yield (Triple tname ctx out) g) st = (Inl e, st')"
    by simp
  from a b c d e show ?thesis by blast
qed

theorem render_one_fetches_opens_renders_writes_witness:
  "render_one failing_render_world ''tpl'' ''nothere.tmpl'' [(''name'', ''World'')] ''out.txt''
     (initial_state demo_files)
     = (Inl (Exception ''TemplateNotFound''), initial_state demo_files)
   \<and> files (snd (render_one failing_render_world ''tpl'' ''t.tmpl'' [(''name'', ''World'')]
                   ''out.txt'' (initial_state demo_files))) ''out.txt'' = Some (File [])
   \<and> files (snd (render_one (demo_world hello_dispatch) ''tpl'' ''t.tmpl''
                   [(''name'', ''World'')] ''out.txt'' (initial_state demo_files))) ''out.txt''
       = Some (File ''Hello World'')"
proof -
  let ?st = "initial_state demo_files"
  let ?ctx = "[(''name'', ''World'')]"
  have g0: "get_template failing_render_world (files ?st) ''tpl'' ''nothere.tmpl''
              = Inl (Exception ''TemplateNotFound'')"
    by (simp add: initial_state_def failing_render_world_def demo_world_def toy_get_template_def demo_files_def)
  have g1: "get_template failing_render_world (files ?st) ''tpl'' ''t.tmpl''
              = Inr ''Hello {{ name }}''"
    by (simp add: initial_state_def failing_render_world_def demo_world_def toy_get_template_def demo_files_def)
  have g2: "get_template (demo_world hello_dispatch) (files ?st) ''tpl'' ''t.tmpl''
              = Inr ''Hello {{ name }}''"
    by (simp add: initial_state_def demo_world_def toy_get_template_def demo_files_def)
  have o1: "can_open failing_render_world ''out.txt'' \<and> \<not> is_dir (files ?st) ''out.txt''"
    by (simp add: initial_state_def failing_render_world_def demo_world_def is_dir_def demo_files_def)
  have o2: "can_open (demo_world hello_dispatch) ''out.txt'' \<and> \<not> is_dir (files ?st) ''out.txt''"
    by (simp add: initial_state_def demo_world_def is_dir_def demo_files_def)
  have r1: "render failing_render_world ((files ?st)(''out.txt'' \<mapsto> File []))
              ''Hello {{ name }}'' ?ctx = Inl (Exception ''UndefinedError'')"
    by (simp add: failing_render_world_def demo_world_def)
  have r2: "render (demo_world hello_dispatch) ((files ?st)(''out.txt'' \<mapsto> File []))
              ''Hello {{ name }}'' ?ctx = Inr ''Hello World''"
    by (simp add: demo_world_def toy_render_def)
  have one: "render_one failing_render_world ''tpl'' ''nothere.tmpl'' ?ctx ''out.txt'' ?st
               = (Inl (Exception ''TemplateNotFound''), ?st)"
    using render_one_fetches_opens_renders_writes
            [of failing_render_world ?st "''tpl''" "''nothere.tmpl''"
                "Exception ''TemplateNotFound''" ?ctx "''out.txt''"] g0
    by simp
  have two: "files (snd (render_one failing_render_world ''tpl'' ''t.tmpl'' ?ctx ''out.txt'' ?st))
               ''out.txt'' = Some (File [])"
    using render_one_fetches_opens_renders_writes
            [of failing_render_world ?st "''tpl''" "''t.tmpl''"
                "Exception ''UndefinedError''" ?ctx "''out.txt''" "''Hello {{ name }}''"]
          g1 o1 r1
    by simp
  have three: "files (snd (render_one (demo_world hello_dispatch) ''tpl'' ''t.tmpl'' ?ctx
                 ''out.txt'' ?st)) ''out.txt'' = Some (File ''Hello World'')"
    using render_one_fetches_opens_renders_writes
            [of "demo_world hello_dispatch" ?st "''tpl''" "''t.tmpl''" _ ?ctx "''out.txt''"
                "''Hello {{ name }}''" "''Hello World''"]
          g2 o2 r2
    by simp
  from one two three show ?thesis by simp
qed

subsection \<open>Repeated keys\<close>

lemma dispatch_args_loop_append:
  "dispatch_args_loop acc (xs @ ys) =
     (case dispatch_args_loop acc xs of Inl e \<Rightarrow> Inl e | Inr a \<Rightarrow> dispatch_args_loop a ys)"
  by (induction xs arbitrary: acc) (auto split: sum.splits)

lemma dispatch_args_loop_distinct:
  "dispatch_args_loop acc toks = Inr kw \<Longrightarrow> distinct (map fst acc) \<Longrightarrow> distinct (map fst kw)"
  by (induction toks arbitrary: acc) (auto split: sum.splits simp: distinct_update)

lemma dispatch_args_loop_other_keys:
  "dispatch_args_loop acc toks = Inr kw \<Longrightarrow>
   \<forall>t \<in> set toks. \<forall>v. dispatch_opt_entry t \<noteq> Inr (key, v) \<Longrightarrow>
   map_of kw key = map_of acc key"
proof (induction toks arbitrary: acc)
  case Nil
  then show ?case by simp
next
  case (Cons t ts)
  from Cons.prems(1) obtain k v where e: "dispatch_opt_entry t = Inr (k, v)"
    and l: "dispatch_args_loop (AList.update k v acc) ts = Inr kw"
    by (auto split: sum.splits)
  have "k \<noteq> key" using Cons.prems(2) e by auto
  moreover have "map_of kw key = map_of (AList.update k v acc) key"
    using Cons.IH [OF l] Cons.prems(2) by simp
  ultimately show ?case by (simp add: update_conv')
qed

lemma one_entry_per_key:
  "distinct (map fst kw) \<Longrightarrow> map_of kw key = Some v \<Longrightarrow>
   filter (\<lambda>e. fst e = key) kw = [(key, v)]"
proof (induction kw)
  case Nil
  then show ?case by simp
next
  case (Cons p ps)
  show ?case
  proof (cases "fst p = key")
    case True
    then have "key \<notin> fst ` set ps" using Cons.prems(1) by auto
    then have "filter (\<lambda>e. fst e = key) ps = []"
      by (auto simp: filter_empty_conv)
    with True Cons.prems(2) show ?thesis by (cases p) auto
  next
    case False
    with Cons show ?thesis by (cases p) auto
  qed
qed

text \<open>
  C9.  When the loop ends normally and \<open>tok\<close> is the last token that stores under
  \<open>key\<close>, the mapping holds exactly one entry for \<open>key\<close>, with the value of \<open>tok\<close>,
  whatever earlier tokens stored under the same key; no key occurs twice.  In a run
  that gets as far as the entry point, \<open>dispatch\<close> is called with this mapping.
\<close>

theorem last_dispatch_opt_wins:
  assumes "dispatch_args_loop [] (pre @ tok # post) = Inr kw"
    and "dispatch_opt_entry tok = Inr (key, val)"
    and "\<forall>t \<in> set post. \<forall>v. dispatch_opt_entry t \<noteq> Inr (key, v)"
  shows "map_of kw key = Some val
       \<and> filter (\<lambda>e. fst e = key) kw = [(key, val)]
       \<and> distinct (map fst kw)
       \<and> (parse_cmd_line argv st0 = (Inr args, st1)
            \<and> dispatch_opts args = pre @ tok # post
            \<and> exec_module w (dispatch args) = Inr (Module (Some f))
          \<longrightarrow> CallDispatch kw \<in> set (events (final_state (run w argv st0))))"
proof -
  from assms(1) obtain a where a: "dispatch_args_loop [] pre = Inr a"
    and b: "dispatch_args_loop a (tok # post) = Inr kw"
    by (auto simp: dispatch_args_loop_append split: sum.splits)
  from b assms(2) have c: "dispatch_args_loop (AList.update key val a) post = Inr kw"
    by simp
  have m: "map_of kw key = Some val"
    using dispatch_args_loop_other_keys [OF c assms(3)] by (simp add: update_conv')
  have d: "distinct (map fst kw)"
    using dispatch_args_loop_distinct [OF assms(1)] by simp
  have o: "filter (\<lambda>e. fst e = key) kw = [(key, val)]"
    using d m by (rule one_entry_per_key)
  have r: "CallDispatch kw \<in> set (events (final_state (run w argv st0)))"
    if p: "parse_cmd_line argv st0 = (Inr args, st1)"
      and q: "dispatch_opts args = pre @ tok # post"
      and x: "exec_module w (dispatch args) = Inr (Module (Some f))"
  proof -
    let ?st3 = "emit (CallDispatch kw) (emit (ExecModule (dispatch args)) (dprint st1))"
    have l: "dispatch_args_loop [] (dispatch_opts args) = Inr kw"
      using assms(1) q by simp
    have c3: "CallDispatch kw \<in> set (events ?st3)" by (simp add: emit_def)
    have "\<exists>st. snd (main w argv st0) = st \<and> (\<exists>new. events st = events ?st3 @ new)"
    proof (cases "f kw")
      case (Inl e)
      with p x l show ?thesis by (simp add: main_def)
    next
      case (Inr g)
      obtain r4 st4 where rl: "render_loop w (templates args) g ?st3 = (r4, st4)"
        by (cases "render_loop w (templates args) g ?st3")
      have "snd (main w argv st0) = st4"
        using main_renders [OF p x l Inr] rl by (cases r4) simp_all
      then show ?thesis using render_loop_events [OF rl] by simp
    qed
    then obtain new where mn: "events (snd (main w argv st0)) = events ?st3 @ new" by blast
    obtain rm sm where ms: "main w argv st0 = (rm, sm)" by (cases "main w argv st0")
    define e where "e = (case rm of Inl x \<Rightarrow> x | Inr n \<Rightarrow> SystemExit n)"
    have "run w argv st0 = handler e sm"
      using ms by (cases rm) (simp_all add: run_def e_def)
    then show ?thesis
      using handler_events [of e sm] mn ms c3 by (auto simp: final_state_def)
  qed
  from m o d r show ?thesis by blast
qed

theorem last_dispatch_opt_wins_witness:
  "dispatch_args_loop [] [''k:1'', ''j:x'', ''k:2''] = Inr [(''k'', ''2''), (''j'', ''x'')]
   \<and> map_of [(''k'', ''2''), (''j'', ''x'')] ''k'' = Some ''2''
   \<and> CallDispatch [(''k'', ''2''), (''j'', ''x'')]
       \<in> set (events (final_state (run (demo_world hello_dispatch)
            [ArgTemplates ''tpl'', ArgDispatch ''d.py'', ArgDispatchOpt ''k:1'',
             ArgDispatchOpt ''j:x'', ArgDispatchOpt ''k:2'']
            (initial_state demo_files))))"
proof -
  let ?argv = "[ArgTemplates ''tpl'', ArgDispatch ''d.py'', ArgDispatchOpt ''k:1'',
                ArgDispatchOpt ''j:x'', ArgDispatchOpt ''k:2'']"
  let ?args = "\<lparr>debug = False, verbose = False, templates = ''tpl'', dispatch = ''d.py'',
                dispatch_opts = [''k:1'', ''j:x'', ''k:2'']\<rparr>"
  have l: "dispatch_args_loop [] ([''k:1'', ''j:x''] @ ''k:2'' # [])
             = Inr [(''k'', ''2''), (''j'', ''x'')]"
    by (simp add: dispatch_opt_entry_def)
  have e: "dispatch_opt_entry ''k:2'' = Inr (''k'', ''2'')"
    by (simp add: dispatch_opt_entry_def)
  have n: "\<forall>t \<in> set []. \<forall>v. dispatch_opt_entry t \<noteq> Inr (''k'', v)" by simp
  have p: "parse_cmd_line ?argv (initial_state demo_files) = (Inr ?args, initial_state demo_files)"
    by (simp add: parse_cmd_line_def default_namespace_def initial_state_def demo_files_def
        directory_path_def dispatch_file_def path_exists_def is_dir_def suffixes_def
        path_name_def path_parts_def)
  have x: "exec_module (demo_world hello_dispatch) (dispatch ?args)
             = Inr (Module (Some hello_dispatch))"
    by (simp add: demo_world_def)
  have q: "dispatch_opts ?args = [''k:1'', ''j:x''] @ ''k:2'' # []" by simp
  show ?thesis
    using last_dispatch_opt_wins [OF l e n, of ?argv "initial_state demo_files" ?args
            "initial_state demo_files" "demo_world hello_dispatch" hello_dispatch]
          l p x q
    by simp
qed

subsection \<open>Runs of the render loop over a list of instructions\<close>

lemma render_loop_gen_of_append:
  "render_loop w dir (gen_of (xs @ ys)) st =
     (case render_loop w dir (gen_of xs) st of
        (Inl e, st') \<Rightarrow> (Inl e, st')
      | (Inr u, st') \<Rightarrow> render_loop w dir (gen_of ys) st')"
proof (induction xs arbitrary: st)
  case Nil
  show ?case by simp
next
  case (Cons x xs)
  show ?case
  proof (cases x)
    case (Triple tname ctx out)
    then show ?thesis using Cons.IH by (auto split: prod.splits sum.splits)
  next
    case NotATriple
    then show ?thesis by simp
  qed
qed

lemma render_loop_gen_of_ok:
  "render_loop w dir (gen_of xs) st = (Inr u, st') \<Longrightarrow>
     written (events st') = written (events st) @ output_files xs
   \<and> opened (events st') = opened (events st) @ output_files xs
   \<and> length (output_files xs) = length xs
   \<and> (\<forall>p. p \<notin> set (output_files xs) \<longrightarrow> files st' p = files st p)"
proof (induction xs arbitrary: st)
  case Nil
  then show ?case by simp
next
  case (Cons x xs)
  show ?case
  proof (cases x)
    case NotATriple
    with Cons.prems show ?thesis by simp
  next
    case (Triple tname ctx out)
    obtain r1 st1 where o: "render_one w dir tname ctx out st = (r1, st1)"
      by (cases "render_one w dir tname ctx out st")
    show ?thesis
    proof (cases r1)
      case (Inl e)
      with Cons.prems Triple o show ?thesis by simp
    next
      case (Inr v)
      with Cons.prems Triple o have l: "render_loop w dir (gen_of xs) st1 = (Inr u, st')"
        by simp
      have o': "render_one w dir tname ctx out st = (Inr v, st1)" using o Inr by simp
      obtain content where s1: "st1 = st\<lparr>files := (files st)(out \<mapsto> File content),
                         events := events st @ [OpenForWriting out, WriteText out content]\<rparr>"
        using render_one_ok [OF o'] by blast
      from Cons.IH [OF l] s1 Triple show ?thesis by auto
    qed
  qed
qed

lemma run_of_render_loop:
  assumes "parse_cmd_line argv st0 = (Inr args, st1)"
    and "exec_module w (dispatch args) = Inr (Module (Some f))"
    and "dispatch_args_loop [] (dispatch_opts args) = Inr kw"
    and "f kw = Inr g"
    and "render_loop w (templates args) g
           (emit (CallDispatch kw) (emit (ExecModule (dispatch args)) (dprint st1))) = (r, st4)"
  shows "run w argv st0 = handler (case r of Inl e \<Rightarrow> e | Inr u \<Rightarrow> SystemExit 0) st4"
  using main_renders [OF assms(1-4)] assms(5)
  by (cases r) (simp_all add: run_def)

lemma write_events_append [simp]:
  "write_events (xs @ ys) = write_events xs @ write_events ys"
  by (induction xs rule: write_events.induct) simp_all

lemma written_write_events [simp]: "written (write_events pts) = map fst pts"
  by (induction pts rule: write_events.induct) simp_all

lemma opened_write_events [simp]: "opened (write_events pts) = map fst pts"
  by (induction pts rule: write_events.induct) simp_all

lemma write_all_other: "p \<notin> fst ` set pts \<Longrightarrow> write_all fs pts p = fs p"
  by (induction fs pts rule: write_all.induct) auto

lemma write_all_holds_a_written_text:
  "p \<in> fst ` set pts \<Longrightarrow> \<exists>t. write_all fs pts p = Some (File t) \<and> (p, t) \<in> set pts"
proof (induction fs pts rule: write_all.induct)
  case (1 fs)
  then show ?case by simp
next
  case (2 fs q t pts)
  show ?case
  proof (cases "p \<in> fst ` set pts")
    case True
    then obtain u where u: "write_all (fs(q \<mapsto> File t)) pts p = Some (File u)"
      "(p, u) \<in> set pts"
      using 2(1) by blast
    then have "write_all fs ((q, t) # pts) p = Some (File u) \<and> (p, u) \<in> set ((q, t) # pts)"
      by simp
    then show ?thesis by blast
  next
    case False
    then have pq: "p = q" using 2(2) by auto
    have "write_all (fs(q \<mapsto> File t)) pts p = (fs(q \<mapsto> File t)) p"
      using False by (rule write_all_other)
    then have "write_all fs ((q, t) # pts) p = Some (File t) \<and> (p, t) \<in> set ((q, t) # pts)"
      using pq by simp
    then show ?thesis by blast
  qed
qed

lemma write_events_member: "(p, t) \<in> set pts \<Longrightarrow> WriteText p t \<in> set (write_events pts)"
  by (induction pts rule: write_events.induct) auto

text \<open>
  A run of the loop that ends normally has written one text to each instruction's
  output file, in order: its events are those writes and its file system is what
  they leave.
\<close>

lemma render_loop_gen_of_writes:
  "render_loop w dir (gen_of xs) st = (Inr u, st') \<Longrightarrow>
   \<exists>texts. length texts = length xs
     \<and> length (output_files xs) = length xs
     \<and> events st' = events st @ write_events (zip (output_files xs) texts)
     \<and> files st' = write_all (files st) (zip (output_files xs) texts)"
proof (induction xs arbitrary: st)
  case Nil
  then show ?case by simp
next
  case (Cons x xs)
  show ?case
  proof (cases x)
    case NotATriple
    with Cons.prems show ?thesis by simp
  next
    case (Triple tname ctx out)
    obtain r1 st1 where o: "render_one w dir tname ctx out st = (r1, st1)"
      by (cases "render_one w dir tname ctx out st")
    show ?thesis
    proof (cases r1)
      case (Inl e)
      with Cons.prems Triple o show ?thesis by simp
    next
      case (Inr v)
      with Cons.prems Triple o have l: "render_loop w dir (gen_of xs) st1 = (Inr u, st')"
        by simp
      have o': "render_one w dir tname ctx out st = (Inr v, st1)" using o Inr by simp
      obtain content where s1: "st1 = st\<lparr>files := (files st)(out \<mapsto> File content),
                         events := events st @ [OpenForWriting out, WriteText out content]\<rparr>"
        using render_one_ok [OF o'] by blast
      obtain texts where t: "length texts = length xs"
        "length (output_files xs) = length xs"
        "events st' = events st1 @ write_events (zip (output_files xs) texts)"
        "files st' = write_all (files st1) (zip (output_files xs) texts)"
        using Cons.IH [OF l] by blast
      have "length (content # texts) = length (x # xs)
          \<and> length (output_files (x # xs)) = length (x # xs)
          \<and> events st' = events st @ write_events (zip (output_files (x # xs)) (content # texts))
          \<and> files st' = write_all (files st) (zip (output_files (x # xs)) (content # texts))"
        using t s1 Triple by simp
      then show ?thesis by blast
    qed
  qed
qed

text \<open>
  C5.  The dispatch script yields the instructions \<open>instrs\<close>; the first \<open>k - 1\<close> of
  them, run on their own, all succeed, and the template of instruction \<open>k\<close> is not
  found in the state they leave.  Then the run exits with status 1, and what it did
  to the file system is exactly one write per earlier instruction, in the order
  yielded: the events of the run are the load, the call of \<open>dispatch\<close>, those \<open>k - 1\<close>
  writes and the traceback; the file system at the end is the one at the start with
  those writes applied; every output file of an earlier instruction exists and holds
  a text the run wrote to it; no other path was opened for writing or changed.
\<close>

theorem missing_template_stops_after_earlier_outputs:
  assumes "parse_cmd_line argv (initial_state fs) = (Inr args, st1)"
    and "exec_module w (dispatch args) = Inr (Module (Some f))"
    and "dispatch_args_loop [] (dispatch_opts args) = Inr kw"
    and "f kw = Inr (gen_of instrs)"
    and "2 \<le> k" and "k \<le> length instrs"
    and "instrs ! (k - 1) = Triple tname ctx out"
    and "render_loop w (templates args) (gen_of (take (k - 1) instrs))
           (emit (CallDispatch kw) (emit (ExecModule (dispatch args)) (dprint st1)))
         = (Inr (), st3)"
    and "get_template w (files st3) (templates args) tname = Inl (Exception ''TemplateNotFound'')"
  shows "exit_code (run w argv (initial_state fs)) = 1
       \<and> written (events (final_state (run w argv (initial_state fs))))
           = output_files (take (k - 1) instrs)
       \<and> opened (events (final_state (run w argv (initial_state fs))))
           = output_files (take (k - 1) instrs)
       \<and> length (output_files (take (k - 1) instrs)) = k - 1
       \<and> (\<forall>p. p \<notin> set (output_files (take (k - 1) instrs))
             \<longrightarrow> files (final_state (run w argv (initial_state fs))) p = fs p)
       \<and> (\<exists>texts. length texts = k - 1
             \<and> files (final_state (run w argv (initial_state fs)))
                 = write_all fs (zip (output_files (take (k - 1) instrs)) texts)
             \<and> events (final_state (run w argv (initial_state fs)))
                 = (if DEBUG st1 then [DebugPrint] else [])
                   @ [ExecModule (dispatch args), CallDispatch kw]
                   @ write_events (zip (output_files (take (k - 1) instrs)) texts)
                   @ [Traceback ''TemplateNotFound''])
       \<and> (\<forall>p \<in> set (output_files (take (k - 1) instrs)).
             \<exists>content. files (final_state (run w argv (initial_state fs))) p
                          = Some (File content)
                      \<and> WriteText p content
                          \<in> set (events (final_state (run w argv (initial_state fs)))))"
proof -
  let ?st2 = "emit (CallDispatch kw) (emit (ExecModule (dispatch args)) (dprint st1))"
  let ?pre = "take (k - 1) instrs"
  let ?outs = "output_files ?pre"
  let ?e = "Exception ''TemplateNotFound''"
  let ?fin = "final_state (run w argv (initial_state fs))"
  have split: "instrs = ?pre @ Triple tname ctx out # drop k instrs"
  proof -
    have "k - 1 < length instrs" using assms(5,6) by simp
    then have "instrs = take (k - 1) instrs @ instrs ! (k - 1) # drop (Suc (k - 1)) instrs"
      by (rule id_take_nth_drop)
    then show ?thesis using assms(5,7) by simp
  qed
  have one: "render_one w (templates args) tname ctx out st3 = (Inl ?e, st3)"
    using assms(9) by (simp add: render_one_def)
  have "render_loop w (templates args) (gen_of (?pre @ Triple tname ctx out # drop k instrs)) ?st2
          = (Inl ?e, st3)"
    using assms(8) one by (simp add: render_loop_gen_of_append)
  then have loop: "render_loop w (templates args) (gen_of instrs) ?st2 = (Inl ?e, st3)"
    using split by simp
  have r: "run w argv (initial_state fs) = (1, emit (Traceback ''TemplateNotFound'') st3)"
    using run_of_render_loop [OF assms(1-4) loop] by simp
  have len: "length ?pre = k - 1" using assms(6) by simp
  obtain texts where t: "length texts = length ?pre" "length ?outs = length ?pre"
    "events st3 = events ?st2 @ write_events (zip ?outs texts)"
    "files st3 = write_all (files ?st2) (zip ?outs texts)"
    using render_loop_gen_of_writes [OF assms(8)] by blast
  have ev1: "events st1 = []"
    using parse_cmd_line_ok_events [OF assms(1)] by (simp add: initial_state_def)
  have fl1: "files st1 = fs"
    using parse_cmd_line_files [OF assms(1)] by (simp add: initial_state_def)
  have e2: "events ?st2
      = (if DEBUG st1 then [DebugPrint] else []) @ [ExecModule (dispatch args), CallDispatch kw]"
    using ev1 by (simp add: emit_def dprint_def)
  have f2: "files ?st2 = fs"
    using fl1 by (simp add: emit_def dprint_def)
  have fst_zip: "map fst (zip ?outs texts) = ?outs"
    using t(1,2) by (simp add: map_fst_zip)
  have fin_files: "files ?fin = write_all fs (zip ?outs texts)"
    using r t(4) f2 by (simp add: final_state_def emit_def)
  have fin_events: "events ?fin
      = (if DEBUG st1 then [DebugPrint] else []) @ [ExecModule (dispatch args), CallDispatch kw]
        @ write_events (zip ?outs texts) @ [Traceback ''TemplateNotFound'']"
    using r t(3) e2 by (simp add: final_state_def emit_def)
  have c1: "exit_code (run w argv (initial_state fs)) = 1"
    using r by (simp add: exit_code_def)
  have c2: "written (events ?fin) = ?outs"
    using fin_events fst_zip by simp
  have c3: "opened (events ?fin) = ?outs"
    using fin_events fst_zip by simp
  have c4: "length ?outs = k - 1" using t(2) len by simp
  have c5: "\<forall>p. p \<notin> set ?outs \<longrightarrow> files ?fin p = fs p"
  proof (intro allI impI)
    fix p assume "p \<notin> set ?outs"
    then have "p \<notin> fst ` set (zip ?outs texts)"
      using fst_zip by (metis set_map)
    then show "files ?fin p = fs p"
      using fin_files by (simp add: write_all_other)
  qed
  have c6: "\<exists>texts. length texts = k - 1
             \<and> files ?fin = write_all fs (zip ?outs texts)
             \<and> events ?fin
                 = (if DEBUG st1 then [DebugPrint] else [])
                   @ [ExecModule (dispatch args), CallDispatch kw]
                   @ write_events (zip ?outs texts)
                   @ [Traceback ''TemplateNotFound'']"
    using t(1) len fin_files fin_events by auto
  have c7: "\<forall>p \<in> set ?outs.
             \<exists>content. files ?fin p = Some (File content)
                      \<and> WriteText p content \<in> set (events ?fin)"
  proof
    fix p assume "p \<in> set ?outs"
    then have "p \<in> fst ` set (zip ?outs texts)"
      using fst_zip by (metis set_map)
    then obtain c where c: "write_all fs (zip ?outs texts) p = Some (File c)"
      "(p, c) \<in> set (zip ?outs texts)"
      using write_all_holds_a_written_text by blast
    have "WriteText p c \<in> set (events ?fin)"
      using write_events_member [OF c(2)] fin_events by simp
    with c(1) fin_files
    show "\<exists>content. files ?fin p = Some (File content)
                      \<and> WriteText p content \<in> set (events ?fin)"
      by auto
  qed
  from c1 c2 c3 c4 c5 c6 c7 show ?thesis by blast
qed

theorem missing_template_stops_after_earlier_outputs_witness:
  "exit_code (run (demo_world three_dispatch) [ArgTemplates ''tpl'', ArgDispatch ''d.py'']
                (initial_state demo_files)) = 1
   \<and> written (events (final_state (run (demo_world three_dispatch)
                [ArgTemplates ''tpl'', ArgDispatch ''d.py''] (initial_state demo_files))))
       = [''a.txt'']
   \<and> demo_files ''a.txt'' = None
   \<and> files (final_state (run (demo_world three_dispatch)
                [ArgTemplates ''tpl'', ArgDispatch ''d.py''] (initial_state demo_files))) ''a.txt''
       = Some (File ''Hello one'')
   \<and> files (final_state (run (demo_world three_dispatch)
                [ArgTemplates ''tpl'', ArgDispatch ''d.py''] (initial_state demo_files))) ''b.txt''
       = None
   \<and> files (final_state (run (demo_world three_dispatch)
                [ArgTemplates ''tpl'', ArgDispatch ''d.py''] (initial_state demo_files))) ''c.txt''
       = None"
proof -
  let ?argv = "[ArgTemplates ''tpl'', ArgDispatch ''d.py'']"
  let ?args = "\<lparr>debug = False, verbose = False, templates = ''tpl'', dispatch = ''d.py'',
                dispatch_opts = []\<rparr>"
  let ?w = "demo_world three_dispatch"
  let ?fin = "final_state (run ?w ?argv (initial_state demo_files))"
  let ?instrs = "[Triple ''t.tmpl'' [(''name'', ''one'')] ''a.txt'',
                  Triple ''missing.tmpl'' [(''name'', ''two'')] ''b.txt'',
                  Triple ''t.tmpl'' [(''name'', ''three'')] ''c.txt'']"
  let ?st3 = "\<lparr>files = demo_files(''a.txt'' \<mapsto> File ''Hello one''),
               events = [ExecModule ''d.py'', CallDispatch [], OpenForWriting ''a.txt'',
                         WriteText ''a.txt'' ''Hello one''],
               DEBUG = False, VERBOSE = False\<rparr>"
  have x: "exec_module ?w (dispatch ?args) = Inr (Module (Some three_dispatch))"
    by (simp add: demo_world_def)
  have l: "dispatch_args_loop [] (dispatch_opts ?args) = Inr []" by simp
  have g: "three_dispatch [] = Inr (gen_of ?instrs)" by (simp add: three_dispatch_def)
  have k: "(2::nat) \<le> 2" "2 \<le> length ?instrs" by simp_all
  have n: "?instrs ! (2 - 1) = Triple ''missing.tmpl'' [(''name'', ''two'')] ''b.txt''" by simp
  have e: "render_loop ?w (templates ?args) (gen_of (take (2 - 1) ?instrs))
             (emit (CallDispatch []) (emit (ExecModule (dispatch ?args))
                (dprint (initial_state demo_files))))
           = (Inr (), ?st3)"
    by (simp add: render_one_def demo_world_def toy_get_template_def toy_render_def
          initial_state_def demo_files_def is_dir_def emit_def dprint_def)
  have m: "get_template ?w (files ?st3) (templates ?args) ''missing.tmpl''
             = Inl (Exception ''TemplateNotFound'')"
    by (simp add: demo_world_def toy_get_template_def demo_files_def)
  have d: "demo_files ''a.txt'' = None" "demo_files ''b.txt'' = None" "demo_files ''c.txt'' = None"
    by (simp_all add: demo_files_def)
  note fact = missing_template_stops_after_earlier_outputs [OF demo_parse x l g k n e m]
  have basic: "exit_code (run ?w ?argv (initial_state demo_files)) = 1"
    "written (events ?fin) = [''a.txt'']"
    "files ?fin ''b.txt'' = None" "files ?fin ''c.txt'' = None"
    using fact d by simp_all
  obtain content where c: "files ?fin ''a.txt'' = Some (File content)"
    "WriteText ''a.txt'' content \<in> set (events ?fin)"
    using fact by auto
  obtain texts where t: "length texts = 2 - 1"
    "events ?fin = (if DEBUG (initial_state demo_files) then [DebugPrint] else [])
        @ [ExecModule (dispatch ?args), CallDispatch []]
        @ write_events (zip (output_files (take (2 - 1) ?instrs)) texts)
        @ [Traceback ''TemplateNotFound'']"
    using fact by blast
  have ev: "events ?fin = [ExecModule ''d.py'', CallDispatch [], OpenForWriting ''a.txt'',
              WriteText ''a.txt'' ''Hello one'', Traceback ''TemplateNotFound'']"
    by (simp add: run_def main_def final_state_def parse_cmd_line_def default_namespace_def
          initial_state_def demo_files_def directory_path_def dispatch_file_def
          path_exists_def is_dir_def suffixes_def path_name_def path_parts_def
          demo_world_def three_dispatch_def render_one_def toy_get_template_def
          toy_render_def emit_def dprint_def)
  have "content = ''Hello one''" using c(2) ev by simp
  with c(1) basic d show ?thesis by simp
qed

text \<open>
  C6.  The command line is accepted, the dispatch script loads, and its entry point
  yields the single instruction \<open>("t.tmpl", context, "out.txt")\<close>; the engine finds
  \<open>t.tmpl\<close> in the template directory and renders it with the context to
  \<open>Hello World\<close>; \<open>out.txt\<close> can be opened for writing.  Then the run writes
  \<open>out.txt\<close>, which holds \<open>Hello World\<close> afterwards, writes nothing else, and exits with
  status 0.  The concrete run below takes the template text \<open>Hello {{ name }}\<close> and
  the context \<open>{"name": "World"}\<close>.
\<close>

theorem one_instruction_renders_hello_world:
  assumes "parse_cmd_line argv (initial_state fs) = (Inr args, st1)"
    and "exec_module w (dispatch args) = Inr (Module (Some f))"
    and "dispatch_args_loop [] (dispatch_opts args) = Inr kw"
    and "f kw = Inr (gen_of [Triple ''t.tmpl'' ctx ''out.txt''])"
    and "get_template w fs (templates args) ''t.tmpl'' = Inr t"
    and "can_open w ''out.txt''" and "\<not> is_dir fs ''out.txt''"
    and "render w (fs(''out.txt'' \<mapsto> File [])) t ctx = Inr ''Hello World''"
  shows "exit_code (run w argv (initial_state fs)) = 0
       \<and> files (final_state (run w argv (initial_state fs))) ''out.txt''
           = Some (File ''Hello World'')
       \<and> written (events (final_state (run w argv (initial_state fs)))) = [''out.txt'']
       \<and> (\<forall>p. p \<noteq> ''out.txt'' \<longrightarrow> files (final_state (run w argv (initial_state fs))) p = fs p)"
proof -
  let ?st2 = "emit (CallDispatch kw) (emit (ExecModule (dispatch args)) (dprint st1))"
  have ev1: "events st1 = []"
    using parse_cmd_line_ok_events [OF assms(1)] by (simp add: initial_state_def)
  have fl1: "files st1 = fs"
    using parse_cmd_line_files [OF assms(1)] by (simp add: initial_state_def)
  have f2: "files ?st2 = fs"
    using fl1 by (simp add: emit_def dprint_def)
  have w2: "written (events ?st2) = []"
    using ev1 by (simp add: emit_def dprint_def)
  let ?st4 = "?st2\<lparr>files := fs(''out.txt'' \<mapsto> File ''Hello World''),
                    events := events ?st2 @ [OpenForWriting ''out.txt'',
                                             WriteText ''out.txt'' ''Hello World'']\<rparr>"
  have one: "render_one w (templates args) ''t.tmpl'' ctx ''out.txt'' ?st2 = (Inr (), ?st4)"
    using assms(5-8) f2 by (simp add: render_one_def emit_def)
  then have loop: "render_loop w (templates args) (gen_of [Triple ''t.tmpl'' ctx ''out.txt'']) ?st2
                     = (Inr (), ?st4)"
    by simp
  have r: "run w argv (initial_state fs) = (0, ?st4)"
    using run_of_render_loop [OF assms(1-4) loop] by simp
  show ?thesis
    using r w2 by (simp add: exit_code_def final_state_def)
qed

theorem one_instruction_renders_hello_world_witness:
  "demo_files ''tpl/t.tmpl'' = Some (File ''Hello {{ name }}'')
   \<and> hello_dispatch [] = Inr (gen_of [Triple ''t.tmpl'' [(''name'', ''World'')] ''out.txt''])
   \<and> exit_code (run (demo_world hello_dispatch) [ArgTemplates ''tpl'', ArgDispatch ''d.py'']
                  (initial_state demo_files)) = 0
   \<and> files (final_state (run (demo_world hello_dispatch)
               [ArgTemplates ''tpl'', ArgDispatch ''d.py''] (initial_state demo_files))) ''out.txt''
       = Some (File ''Hello World'')"
proof -
  let ?args = "\<lparr>debug = False, verbose = False, templates = ''tpl'', dispatch = ''d.py'',
                dispatch_opts = []\<rparr>"
  let ?w = "demo_world hello_dispatch"
  let ?ctx = "[(''name'', ''World'')]"
  have a: "demo_files ''tpl/t.tmpl'' = Some (File ''Hello {{ name }}'')"
    by (simp add: demo_files_def)
  have x: "exec_module ?w (dispatch ?args) = Inr (Module (Some hello_dispatch))"
    by (simp add: demo_world_def)
  have l: "dispatch_args_loop [] (dispatch_opts ?args) = Inr []" by simp
  have g: "hello_dispatch [] = Inr (gen_of [Triple ''t.tmpl'' ?ctx ''out.txt''])"
    by (simp add: hello_dispatch_def)
  have t: "get_template ?w demo_files (templates ?args) ''t.tmpl'' = Inr ''Hello {{ name }}''"
    by (simp add: demo_world_def toy_get_template_def demo_files_def)
  have o: "can_open ?w ''out.txt''" "\<not> is_dir demo_files ''out.txt''"
    by (simp_all add: demo_world_def is_dir_def demo_files_def)
  have r: "render ?w (demo_files(''out.txt'' \<mapsto> File [])) ''Hello {{ name }}'' ?ctx
             = Inr ''Hello World''"
    by (simp add: demo_world_def toy_render_def)
  show ?thesis
    using one_instruction_renders_hello_world [OF demo_parse x l g t o r] a g
    by simp
qed

subsection \<open>\<open>--dispatch\<close>: which paths are accepted\<close>

lemma hd_str_split: "hd (str_split sep s) = takeWhile (\<lambda>c. c \<noteq> sep) s"
  by (induction s) auto

lemma takeWhile_prefix_iff:
  "(\<exists>b. s = x @ b \<and> sep \<notin> set x \<and> (b = [] \<or> hd b = sep))
     \<longleftrightarrow> x = takeWhile (\<lambda>c. c \<noteq> sep) s"
proof
  assume "\<exists>b. s = x @ b \<and> sep \<notin> set x \<and> (b = [] \<or> hd b = sep)"
  then obtain b where b: "s = x @ b" "sep \<notin> set x" "b = [] \<or> hd b = sep" by blast
  have "takeWhile (\<lambda>c. c \<noteq> sep) (x @ b) = x"
    using b(2,3) by (cases b) (auto simp: takeWhile_append)
  with b(1) show "x = takeWhile (\<lambda>c. c \<noteq> sep) s" by simp
next
  assume x: "x = takeWhile (\<lambda>c. c \<noteq> sep) s"
  let ?b = "dropWhile (\<lambda>c. c \<noteq> sep) s"
  have "s = x @ ?b" using x by simp
  moreover have "sep \<notin> set x" using x by (auto dest: set_takeWhileD)
  moreover have "?b = [] \<or> hd ?b = sep"
    using hd_dropWhile [of "\<lambda>c. c \<noteq> sep" s] by auto
  ultimately show "\<exists>b. s = x @ b \<and> sep \<notin> set x \<and> (b = [] \<or> hd b = sep)" by blast
qed

lemma str_split_pieces:
  "x \<in> set (str_split sep s) \<longleftrightarrow>
     x = takeWhile (\<lambda>c. c \<noteq> sep) s \<or> x \<in> set (tl (str_split sep s))"
  using str_split_nonempty [of sep s] hd_str_split [of sep s]
  by (cases "str_split sep s") auto

lemma later_piece_iff:
  "x \<in> set (tl (str_split sep s)) \<longleftrightarrow>
     (\<exists>a b. s = a @ sep # x @ b \<and> sep \<notin> set x \<and> (b = [] \<or> hd b = sep))"
proof (induction s)
  case Nil
  show ?case by simp
next
  case (Cons c cs)
  show ?case
  proof (cases "c = sep")
    case True
    have "x \<in> set (tl (str_split sep (c # cs))) \<longleftrightarrow> x \<in> set (str_split sep cs)"
      using True by simp
    also have "\<dots> \<longleftrightarrow> x = takeWhile (\<lambda>c. c \<noteq> sep) cs \<or> x \<in> set (tl (str_split sep cs))"
      by (rule str_split_pieces)
    also have "\<dots> \<longleftrightarrow> (\<exists>b. cs = x @ b \<and> sep \<notin> set x \<and> (b = [] \<or> hd b = sep))
                   \<or> (\<exists>a b. cs = a @ sep # x @ b \<and> sep \<notin> set x \<and> (b = [] \<or> hd b = sep))"
      using Cons.IH takeWhile_prefix_iff [of cs x sep] by simp
    also have "\<dots> \<longleftrightarrow> (\<exists>a b. c # cs = a @ sep # x @ b \<and> sep \<notin> set x \<and> (b = [] \<or> hd b = sep))"
    proof
      assume "(\<exists>b. cs = x @ b \<and> sep \<notin> set x \<and> (b = [] \<or> hd b = sep))
                   \<or> (\<exists>a b. cs = a @ sep # x @ b \<and> sep \<notin> set x \<and> (b = [] \<or> hd b = sep))"
      then show "\<exists>a b. c # cs = a @ sep # x @ b \<and> sep \<notin> set x \<and> (b = [] \<or> hd b = sep)"
      proof
        assume "\<exists>b. cs = x @ b \<and> sep \<notin> set x \<and> (b = [] \<or> hd b = sep)"
        then obtain b where "cs = x @ b" "sep \<notin> set x" "b = [] \<or> hd b = sep" by blast
        then have "c # cs = [] @ sep # x @ b \<and> sep \<notin> set x \<and> (b = [] \<or> hd b = sep)"
          using True by simp
        then show ?thesis by blast
      next
        assume "\<exists>a b. cs = a @ sep # x @ b \<and> sep \<notin> set x \<and> (b = [] \<or> hd b = sep)"
        then obtain a b where "cs = a @ sep # x @ b" "sep \<notin> set x" "b = [] \<or> hd b = sep"
          by blast
        then have "c # cs = (c # a) @ sep # x @ b \<and> sep \<notin> set x \<and> (b = [] \<or> hd b = sep)"
          by simp
        then show ?thesis by blast
      qed
    next
      assume "\<exists>a b. c # cs = a @ sep # x @ b \<and> sep \<notin> set x \<and> (b = [] \<or> hd b = sep)"
      then obtain a b where ab: "c # cs = a @ sep # x @ b" "sep \<notin> set x" "b = [] \<or> hd b = sep"
        by blast
      show "(\<exists>b. cs = x @ b \<and> sep \<notin> set x \<and> (b = [] \<or> hd b = sep))
                   \<or> (\<exists>a b. cs = a @ sep # x @ b \<and> sep \<notin> set x \<and> (b = [] \<or> hd b = sep))"
      proof (cases a)
        case Nil
        with ab show ?thesis by auto
      next
        case (Cons a1 as)
        with ab have "cs = as @ sep # x @ b" by simp
        with ab(2,3) show ?thesis by blast
      qed
    qed
    finally show ?thesis .
  next
    case False
    have "x \<in> set (tl (str_split sep (c # cs))) \<longleftrightarrow> x \<in> set (tl (str_split sep cs))"
      using False by simp
    also have "\<dots> \<longleftrightarrow> (\<exists>a b. cs = a @ sep # x @ b \<and> sep \<notin> set x \<and> (b = [] \<or> hd b = sep))"
      by (rule Cons.IH)
    also have "\<dots> \<longleftrightarrow> (\<exists>a b. c # cs = a @ sep # x @ b \<and> sep \<notin> set x \<and> (b = [] \<or> hd b = sep))"
    proof
      assume "\<exists>a b. cs = a @ sep # x @ b \<and> sep \<notin> set x \<and> (b = [] \<or> hd b = sep)"
      then obtain a b where "cs = a @ sep # x @ b" "sep \<notin> set x" "b = [] \<or> hd b = sep"
        by blast
      then have "c # cs = (c # a) @ sep # x @ b \<and> sep \<notin> set x \<and> (b = [] \<or> hd b = sep)"
        by simp
      then show "\<exists>a b. c # cs = a @ sep # x @ b \<and> sep \<notin> set x \<and> (b = [] \<or> hd b = sep)"
        by blast
    next
      assume "\<exists>a b. c # cs = a @ sep # x @ b \<and> sep \<notin> set x \<and> (b = [] \<or> hd b = sep)"
      then obtain a b where ab: "c # cs = a @ sep # x @ b" "sep \<notin> set x" "b = [] \<or> hd b = sep"
        by blast
      show "\<exists>a b. cs = a @ sep # x @ b \<and> sep \<notin> set x \<and> (b = [] \<or> hd b = sep)"
      proof (cases a)
        case Nil
        with ab False show ?thesis by simp
      next
        case (Cons a1 as)
        with ab have "cs = as @ sep # x @ b" by simp
        with ab(2,3) show ?thesis by blast
      qed
    qed
    finally show ?thesis .
  qed
qed

text \<open>
  What \<open>dispatch_file\<close> accepts: a path that exists and has \<open>.py\<close> among the suffixes
  of its name, in any position.  The name does not end in a dot and, leading dots
  apart, reads as some text, then \<open>.py\<close>, then nothing or a further dot and more.
\<close>

lemma dispatch_file_accepts_any_py_suffix:
  "dispatch_file fs msg s
     = (if path_exists fs s \<and> ''.py'' \<in> set (suffixes s) then Inr s else Inl msg)
   \<and> (''.py'' \<in> set (suffixes s) \<longleftrightarrow>
        (path_name s = [] \<or> last (path_name s) \<noteq> CHR ''.'')
        \<and> (\<exists>a b. dropWhile (\<lambda>c. c = CHR ''.'') (path_name s) = a @ ''.py'' @ b
                  \<and> (b = [] \<or> hd b = CHR ''.'')))"
proof -
  let ?n = "path_name s"
  let ?m = "dropWhile (\<lambda>c. c = CHR ''.'') ?n"
  have a: "dispatch_file fs msg s
     = (if path_exists fs s \<and> ''.py'' \<in> set (suffixes s) then Inr s else Inl msg)"
    by (simp add: dispatch_file_def)
  have inj: "''.py'' \<in> (\<lambda>p. CHR ''.'' # p) ` X \<longleftrightarrow> ''py'' \<in> X" for X
    by auto
  have "''.py'' \<in> set (suffixes s) \<longleftrightarrow>
          (?n = [] \<or> last ?n \<noteq> CHR ''.'') \<and> ''py'' \<in> set (tl (str_split CHR ''.'' ?m))"
    using inj by (simp add: suffixes_def Let_def)
  also have "\<dots> \<longleftrightarrow> (?n = [] \<or> last ?n \<noteq> CHR ''.'')
        \<and> (\<exists>a b. ?m = a @ CHR ''.'' # ''py'' @ b \<and> CHR ''.'' \<notin> set ''py''
                  \<and> (b = [] \<or> hd b = CHR ''.''))"
    by (simp only: later_piece_iff)
  also have "\<dots> \<longleftrightarrow> (?n = [] \<or> last ?n \<noteq> CHR ''.'')
        \<and> (\<exists>a b. ?m = a @ ''.py'' @ b \<and> (b = [] \<or> hd b = CHR ''.''))"
    by simp
  finally show ?thesis using a by blast
qed

text \<open>
  The parser and the check: a \<open>--dispatch\<close> occurrence whose path fails the check ends
  the parse with a usage error wherever it stands on the command line, unless an
  earlier occurrence has ended the parse already; either way the parse does not
  return.  A path that passes is taken into the namespace.
\<close>

lemma consume_args_dispatch_step:
  "consume_args (ArgDispatch s # rest) ns seen_t seen_d extras st
     = (if path_exists (files st) s \<and> ''.py'' \<in> set (suffixes s)
        then consume_args rest (ns\<lparr>dispatch := s\<rparr>) seen_t True extras st
        else parser_error ''The given path is not a valid dispatch script.'' st)"
  by (simp add: dispatch_file_def)

lemma consume_args_bad_dispatch:
  "ArgDispatch s \<in> set argv \<Longrightarrow>
   \<not> (path_exists (files st) s \<and> ''.py'' \<in> set (suffixes s)) \<Longrightarrow>
   \<exists>e st'. consume_args argv ns a b c st = (Inl e, st')"
  by (induction argv ns a b c st rule: consume_args.induct)
     (auto simp: parser_error_def dispatch_file_def split: sum.splits)

lemma parse_cmd_line_bad_dispatch:
  assumes "ArgDispatch s \<in> set argv"
    and "\<not> (path_exists (files st) s \<and> ''.py'' \<in> set (suffixes s))"
  shows "\<exists>k st'. parse_cmd_line argv st = (Inl (SystemExit k), st')"
proof -
  obtain e st' where c: "consume_args argv default_namespace False False False st = (Inl e, st')"
    using consume_args_bad_dispatch [OF assms] by blast
  then obtain k where "e = SystemExit k" using consume_args_exc by blast
  with c show ?thesis by (simp add: parse_cmd_line_def)
qed

lemma parse_cmd_line_good_dispatch:
  assumes "path_exists (files st) s" and "''.py'' \<in> set (suffixes s)"
    and "is_dir (files st) d"
  shows "parse_cmd_line [ArgTemplates d, ArgDispatch s] st
           = (Inr (default_namespace\<lparr>templates := d, dispatch := s\<rparr>), st)"
  using assms
  by (simp add: parse_cmd_line_def directory_path_def dispatch_file_def path_exists_def
        is_dir_def)

text \<open>
  C8.  \<open>dispatch_file\<close> is documented to ensure that its input is an existing dispatch
  module file, and it tests \<open>'.py' in path.suffixes\<close>.  For \<open>x.py.bak\<close>, an existing
  file whose suffix is \<open>.bak\<close> and not \<open>.py\<close>, the test passes: the check returns the
  path, and the command line \<open>--templates tpl --dispatch x.py.bak\<close> is accepted with
  \<open>x.py.bak\<close> as the dispatch script, where a path without the \<open>.py\<close> suffix was to
  be refused.
\<close>

theorem dispatch_accepts_inner_py_suffix:
  "demo_files ''x.py.bak'' = Some (File ''def dispatch(**kw): ...'')
   \<and> suffix ''x.py.bak'' = ''.bak''
   \<and> suffixes ''x.py.bak'' = [''.py'', ''.bak'']
   \<and> dispatch_file demo_files ''The given path is not a valid dispatch script.'' ''x.py.bak''
       = Inr ''x.py.bak''
   \<and> parse_cmd_line [ArgTemplates ''tpl'', ArgDispatch ''x.py.bak''] (initial_state demo_files)
       = (Inr \<lparr>debug = False, verbose = False, templates = ''tpl'', dispatch = ''x.py.bak'',
               dispatch_opts = []\<rparr>, initial_state demo_files)"
  by (simp add: suffix_def suffixes_def path_name_def path_parts_def dispatch_file_def
        directory_path_def path_exists_def is_dir_def demo_files_def parse_cmd_line_def
        default_namespace_def initial_state_def)

theorem dispatch_accepts_inner_py_suffix_witness:
  "fst (parse_cmd_line [ArgTemplates ''tpl'', ArgDispatch ''x.py.bak'']
          (initial_state demo_files))
     = Inr \<lparr>debug = False, verbose = False, templates = ''tpl'', dispatch = ''x.py.bak'',
            dispatch_opts = []\<rparr>
   \<and> suffix ''x.py.bak'' \<noteq> ''.py''"
  using dispatch_accepts_inner_py_suffix by simp

end
